theory Spec2Isabelle
  imports Main "HOL-Library.AList" "HOL-Library.Sublist"
begin

section \<open>FileCollection: an in-memory directory tree of file entries\<close>

text \<open>
  A shallow embedding of \<^verbatim>\<open>openage/util/fslike/filecollection.py\<close>.

  Path components are byte strings; a path is the list \<^verbatim>\<open>parts\<close> of its components and
  the empty list is the root. Every method of \<^verbatim>\<open>FileCollection\<close> becomes a function of the
  collection's only field \<^verbatim>\<open>rootentries\<close> and of \<^verbatim>\<open>parts\<close>. A method that may change
  the tree returns the tree it leaves behind together with its outcome, also when it
  raises; an exception is the left injection of a sum.
\<close>

subsection \<open>Exceptions\<close>

type_synonym name = string

text \<open>
  The argument of an exception. \<open>Str s\<close> is a text literal, \<open>Bytes b\<close> is a bytes object
  handed over as it is (\<^verbatim>\<open>b"/".join(parts)\<close>), and \<open>StrDecoded s b\<close> stands for
  \<^verbatim>\<open>s + b.decode(errors='replace')\<close> with \<open>b\<close> kept undecoded.
\<close>

datatype message = Str string | Bytes string | StrDecoded string string

text \<open>
  The exception classes the module can raise. \<^verbatim>\<open>IOError\<close> is Python's \<^verbatim>\<open>OSError\<close>;
  the four file errors and \<^verbatim>\<open>io.UnsupportedOperation\<close> are subclasses of it,
  \<^verbatim>\<open>KeyError\<close>, \<^verbatim>\<open>AttributeError\<close> and \<^verbatim>\<open>TypeError\<close> are not.
\<close>

datatype error =
    FileNotFoundError message
  | FileExistsError message
  | IsADirectoryError message
  | NotADirectoryError message
  | UnsupportedOperation message
  | IOError message
  | KeyError name
  | AttributeError string
  | TypeError string

fun is_IOError :: "error \<Rightarrow> bool" where
  "is_IOError (KeyError _) = False"
| "is_IOError (AttributeError _) = False"
| "is_IOError (TypeError _) = False"
| "is_IOError _ = True"

text \<open>\<^verbatim>\<open>b"/".join(parts)\<close>\<close>

fun join :: "name list \<Rightarrow> string" where
  "join [] = []"
| "join [x] = x"
| "join (x # y # ys) = x @ ''/'' @ join (y # ys)"

subsection \<open>File entries\<close>

text \<open>
  Two kinds of values are stored as file entries by the module itself:
  \<^item> \<^verbatim>\<open>FileCollectionPath.add_file\<close> stores the 4-tuple
    \<^verbatim>\<open>(open_r, open_w, filesize, mtime)\<close>, each slot \<^verbatim>\<open>None\<close> or a callable
    (\<open>Tuple4\<close>; a callable is represented by what it yields);
  \<^item> \<^verbatim>\<open>add_fileentry\<close> is annotated to take an instance of the class \<^verbatim>\<open>FileEntry\<close>,
    whose four methods return a value or raise (\<open>FileEntry\<close>; each field is the outcome
    of calling the method, and \<^verbatim>\<open>None\<close> is a possible return value of the two openers).
\<close>

datatype ('r, 'w, 't) fileentry =
    Tuple4 "'r option" "'w option" "int option" "'t option"
  | FileEntry "error + 'r option" "error + 'w option" "error + int" "error + 't"

text \<open>The class \<^verbatim>\<open>FileEntry\<close> itself: every method raises \<^verbatim>\<open>UnsupportedOperation\<close>.\<close>

definition FileEntry_base :: "('r, 'w, 't) fileentry" where
  "FileEntry_base =
     FileEntry (Inl (UnsupportedOperation (Str ''FileEntry.open_r'')))
               (Inl (UnsupportedOperation (Str ''FileEntry.open_w'')))
               (Inl (UnsupportedOperation (Str ''FileEntry.size'')))
               (Inl (UnsupportedOperation (Str ''FileEntry.mtime'')))"

text \<open>Attribute access and call \<^verbatim>\<open>entry.open_r()\<close> and its three siblings: a tuple has no
  such attribute.\<close>

fun call_open_r :: "('r, 'w, 't) fileentry \<Rightarrow> error + 'r option" where
  "call_open_r (FileEntry r w s t) = r"
| "call_open_r (Tuple4 r w s t) = Inl (AttributeError ''open_r'')"

fun call_open_w :: "('r, 'w, 't) fileentry \<Rightarrow> error + 'w option" where
  "call_open_w (FileEntry r w s t) = w"
| "call_open_w (Tuple4 r w s t) = Inl (AttributeError ''open_w'')"

fun call_size :: "('r, 'w, 't) fileentry \<Rightarrow> error + int" where
  "call_size (FileEntry r w s t) = s"
| "call_size (Tuple4 r w s t) = Inl (AttributeError ''size'')"

fun call_mtime :: "('r, 'w, 't) fileentry \<Rightarrow> error + 't" where
  "call_mtime (FileEntry r w s t) = t"
| "call_mtime (Tuple4 r w s t) = Inl (AttributeError ''mtime'')"

text \<open>The unpacking \<^verbatim>\<open>_, open_w, _, _ = entry\<close>: an instance of \<^verbatim>\<open>FileEntry\<close> is not
  iterable.\<close>

fun unpack4 ::
  "('r, 'w, 't) fileentry \<Rightarrow> error + ('r option \<times> 'w option \<times> int option \<times> 't option)" where
  "unpack4 (Tuple4 r w s t) = Inr (r, w, s, t)"
| "unpack4 (FileEntry r w s t) = Inl (TypeError ''cannot unpack non-iterable FileEntry object'')"

subsection \<open>The directory tree\<close>

text \<open>
  A directory is the pair \<^verbatim>\<open>(OrderedDict(), OrderedDict())\<close> of its file entries
  (\<^verbatim>\<open>entries[0]\<close>) and its subdirectories (\<^verbatim>\<open>entries[1]\<close>). An \<^verbatim>\<open>OrderedDict\<close> is an
  association list in insertion order: \<^verbatim>\<open>k in d\<close> is \<open>has_key\<close>, \<^verbatim>\<open>d[k]\<close> is
  \<^const>\<open>map_of\<close>, \<^verbatim>\<open>d[k] = v\<close> is \<^const>\<open>AList.update\<close> (an existing key keeps its place, a
  new one goes to the end), \<^verbatim>\<open>del d[k]\<close> is \<^const>\<open>AList.delete\<close> and iteration yields
  \<open>map fst d\<close>.
\<close>

datatype 'e direntries =
  Entries (fileentries: "(name \<times> 'e) list") (subdirs: "(name \<times> 'e direntries) list")

definition has_key :: "('k \<times> 'v) list \<Rightarrow> 'k \<Rightarrow> bool" where
  "has_key d k = (k \<in> fst ` set d)"

text \<open>\<^verbatim>\<open>self.rootentries = OrderedDict(), OrderedDict()\<close>\<close>

definition init :: "'e direntries" where
  "init = Entries [] []"

subsection \<open>Resolving a directory\<close>

text \<open>
  The loop of \<^verbatim>\<open>get_direntries\<close>, from index \<open>idx\<close> on, with \<open>rest\<close> the components not
  yet walked and \<open>entries\<close> the directory reached. It returns that directory as the loop
  leaves it (the loop inserts new directories in place) and either the exception
  raised or the directory the walk ends in.
\<close>

fun get_direntries_loop ::
  "bool \<Rightarrow> name list \<Rightarrow> nat \<Rightarrow> name list \<Rightarrow> 'e direntries \<Rightarrow> 'e direntries \<times> (error + 'e direntries)"
  where
  "get_direntries_loop create parts idx [] entries = (entries, Inr entries)"
| "get_direntries_loop create parts idx (subdir # rest) entries =
     (case (if \<not> has_key (subdirs entries) subdir then
              if create then
                if has_key (fileentries entries) subdir then
                  Inl (FileExistsError (Bytes (join (take (idx + 1) parts))))
                else
                  Inr (Entries (fileentries entries)
                         (AList.update subdir (Entries [] []) (subdirs entries)))
              else
                Inl (FileNotFoundError
                       (StrDecoded ''No such directory: '' (join (take (idx + 1) parts))))
            else Inr entries) of
        Inl e \<Rightarrow> (entries, Inl e)
      | Inr entries1 \<Rightarrow>
          (case map_of (subdirs entries1) subdir of
             None \<Rightarrow> (entries1, Inl (KeyError subdir))
           | Some child \<Rightarrow>
               (case get_direntries_loop create parts (idx + 1) rest child of
                  (child', res) \<Rightarrow>
                    (Entries (fileentries entries1)
                       (AList.update subdir child' (subdirs entries1)), res))))"

definition get_direntries ::
  "'e direntries \<Rightarrow> name list \<Rightarrow> bool \<Rightarrow> 'e direntries \<times> (error + 'e direntries)" where
  "get_direntries rootentries parts create = get_direntries_loop create parts 0 parts rootentries"

text \<open>
  The callers of \<^verbatim>\<open>get_direntries\<close> change the directory it returns in place. The tree
  is strict (a directory is created fresh and stored under one name of one parent), so
  the object returned for \<open>parts\<close> is the directory reached from the root along \<open>parts\<close>,
  and changing it by \<open>f\<close> is \<open>modify_at parts f\<close> on the root.
\<close>

fun modify_at ::
  "name list \<Rightarrow> ('e direntries \<Rightarrow> 'e direntries) \<Rightarrow> 'e direntries \<Rightarrow> 'e direntries" where
  "modify_at [] f entries = f entries"
| "modify_at (subdir # rest) f entries =
     (case map_of (subdirs entries) subdir of
        None \<Rightarrow> entries
      | Some child \<Rightarrow>
          Entries (fileentries entries)
            (AList.update subdir (modify_at rest f child) (subdirs entries)))"

subsection \<open>The operations\<close>

text \<open>
  \<^verbatim>\<open>add_fileentry\<close>, \<^verbatim>\<open>mkdirs\<close>, \<^verbatim>\<open>rmdir\<close> and \<^verbatim>\<open>unlink\<close> return the tree they leave and their
  outcome. The methods that only read return their outcome alone: the one thing they do
  to the tree is to call \<^verbatim>\<open>get_direntries\<close> without \<^verbatim>\<open>create\<close>, which leaves it as it is
  (lemma \<open>get_direntries_False_fst\<close> below). \<^verbatim>\<open>list\<close> is a generator; its model is the list
  of the names it yields, or the exception raised at its first step.
\<close>

definition add_fileentry ::
  "'e direntries \<Rightarrow> name list \<Rightarrow> 'e \<Rightarrow> 'e direntries \<times> (error + unit)" where
  "add_fileentry rootentries parts fileentry =
     (if parts = [] then
        (rootentries, Inl (IsADirectoryError (Str ''FileCollection.root is a directory'')))
      else
        case get_direntries rootentries (butlast parts) True of
          (root1, Inl e) \<Rightarrow> (root1, Inl e)
        | (root1, Inr entries) \<Rightarrow>
            let name = last parts in
            if has_key (subdirs entries) name then
              (root1, Inl (IsADirectoryError (Bytes (join parts))))
            else
              (modify_at (butlast parts)
                 (\<lambda>d. Entries (AList.update name fileentry (fileentries d)) (subdirs d)) root1,
               Inr ()))"

definition get_fileentry :: "'e direntries \<Rightarrow> name list \<Rightarrow> error + 'e" where
  "get_fileentry rootentries parts =
     (if parts = [] then
        Inl (IsADirectoryError (Str ''FileCollection.root is a directory''))
      else
        case snd (get_direntries rootentries (butlast parts) False) of
          Inl e \<Rightarrow> Inl e
        | Inr entries \<Rightarrow>
            let name = last parts in
            if has_key (subdirs entries) name then
              Inl (IsADirectoryError (Bytes (join parts)))
            else if \<not> has_key (fileentries entries) name then
              Inl (FileNotFoundError (Bytes (join parts)))
            else
              (case map_of (fileentries entries) name of
                 None \<Rightarrow> Inl (KeyError name)
               | Some entry \<Rightarrow> Inr entry))"

definition open_r :: "('r, 'w, 't) fileentry direntries \<Rightarrow> name list \<Rightarrow> error + 'r" where
  "open_r rootentries parts =
     (case get_fileentry rootentries parts of
        Inl e \<Rightarrow> Inl e
      | Inr entry \<Rightarrow>
          (case call_open_r entry of
             Inl e \<Rightarrow> Inl e
           | Inr None \<Rightarrow> Inl (UnsupportedOperation (StrDecoded ''not readable: '' (join parts)))
           | Inr (Some h) \<Rightarrow> Inr h))"

definition open_w :: "('r, 'w, 't) fileentry direntries \<Rightarrow> name list \<Rightarrow> error + 'w" where
  "open_w rootentries parts =
     (case get_fileentry rootentries parts of
        Inl e \<Rightarrow> Inl e
      | Inr entry \<Rightarrow>
          (case call_open_w entry of
             Inl e \<Rightarrow> Inl e
           | Inr None \<Rightarrow> Inl (UnsupportedOperation (StrDecoded ''not writable: '' (join parts)))
           | Inr (Some h) \<Rightarrow> Inr h))"

text \<open>\<^verbatim>\<open>list\<close>: the names of the subdirectories, then those of the files.\<close>

definition list_dir :: "'e direntries \<Rightarrow> name list \<Rightarrow> error + name list" where
  "list_dir rootentries parts =
     (case snd (get_direntries rootentries parts False) of
        Inl e \<Rightarrow> Inl e
      | Inr entries \<Rightarrow> Inr (map fst (subdirs entries) @ map fst (fileentries entries)))"

definition filesize :: "('r, 'w, 't) fileentry direntries \<Rightarrow> name list \<Rightarrow> error + int" where
  "filesize rootentries parts =
     (case get_fileentry rootentries parts of
        Inl e \<Rightarrow> Inl e
      | Inr entry \<Rightarrow> call_size entry)"

definition mtime :: "('r, 'w, 't) fileentry direntries \<Rightarrow> name list \<Rightarrow> error + 't" where
  "mtime rootentries parts =
     (case get_fileentry rootentries parts of
        Inl e \<Rightarrow> Inl e
      | Inr entry \<Rightarrow> call_mtime entry)"

definition mkdirs :: "'e direntries \<Rightarrow> name list \<Rightarrow> 'e direntries \<times> (error + unit)" where
  "mkdirs rootentries parts =
     (case get_direntries rootentries parts True of
        (root1, Inl e) \<Rightarrow> (root1, Inl e)
      | (root1, Inr _) \<Rightarrow> (root1, Inr ()))"

definition rmdir :: "'e direntries \<Rightarrow> name list \<Rightarrow> 'e direntries \<times> (error + unit)" where
  "rmdir rootentries parts =
     (if parts = [] then
        (rootentries, Inl (UnsupportedOperation (Str ''can't rmdir FileCollection.root'')))
      else
        case get_direntries rootentries (butlast parts) False of
          (root1, Inl e) \<Rightarrow> (root1, Inl e)
        | (root1, Inr parent) \<Rightarrow>
            let name = last parts in
            if has_key (fileentries parent) name then
              (root1, Inl (NotADirectoryError (Bytes (join parts))))
            else
              (case map_of (subdirs parent) name of
                 None \<Rightarrow> (root1, Inl (FileNotFoundError (Bytes (join parts))))
               | Some child \<Rightarrow>
                   if fileentries child \<noteq> [] \<or> subdirs child \<noteq> [] then
                     (root1, Inl (IOError (StrDecoded ''Directory not empty: '' (join parts))))
                   else
                     (modify_at (butlast parts)
                        (\<lambda>d. Entries (fileentries d) (AList.delete name (subdirs d))) root1,
                      Inr ())))"

definition unlink :: "'e direntries \<Rightarrow> name list \<Rightarrow> 'e direntries \<times> (error + unit)" where
  "unlink rootentries parts =
     (if parts = [] then
        (rootentries, Inl (IsADirectoryError (Str ''FileCollection.root'')))
      else
        case get_direntries rootentries (butlast parts) False of
          (root1, Inl e) \<Rightarrow> (root1, Inl e)
        | (root1, Inr parent) \<Rightarrow>
            let name = last parts in
            if has_key (subdirs parent) name then
              (root1, Inl (IsADirectoryError (Bytes (join parts))))
            else if has_key (fileentries parent) name then
              (modify_at (butlast parts)
                 (\<lambda>d. Entries (AList.delete name (fileentries d)) (subdirs d)) root1,
               Inr ())
            else
              (root1, Inl (FileNotFoundError (Bytes (join parts)))))"

definition touch :: "'e direntries \<Rightarrow> name list \<Rightarrow> 'e direntries \<times> (error + unit)" where
  "touch rootentries parts = (rootentries, Inl (UnsupportedOperation (Str ''FileCollection.touch'')))"

definition rename ::
  "'e direntries \<Rightarrow> name list \<Rightarrow> name list \<Rightarrow> 'e direntries \<times> (error + unit)" where
  "rename rootentries srcparts tgtparts =
     (rootentries, Inl (UnsupportedOperation (Str ''FileCollection.rename'')))"

text \<open>
  The three predicates run their body under \<^verbatim>\<open>try: ... except IOError: return False\<close>:
  an exception of that class becomes \<open>False\<close>, any other one leaves the method.
\<close>

definition except_IOError :: "error + bool \<Rightarrow> error + bool" where
  "except_IOError body =
     (case body of
        Inl e \<Rightarrow> if is_IOError e then Inr False else Inl e
      | Inr b \<Rightarrow> Inr b)"

definition is_file :: "'e direntries \<Rightarrow> name list \<Rightarrow> error + bool" where
  "is_file rootentries parts =
     except_IOError
       (case get_fileentry rootentries parts of
          Inl e \<Rightarrow> Inl e
        | Inr _ \<Rightarrow> Inr True)"

definition is_dir :: "'e direntries \<Rightarrow> name list \<Rightarrow> error + bool" where
  "is_dir rootentries parts =
     except_IOError
       (case snd (get_direntries rootentries parts False) of
          Inl e \<Rightarrow> Inl e
        | Inr _ \<Rightarrow> Inr True)"

definition writable :: "('r, 'w, 't) fileentry direntries \<Rightarrow> name list \<Rightarrow> error + bool" where
  "writable rootentries parts =
     except_IOError
       (case get_fileentry rootentries parts of
          Inl e \<Rightarrow> Inl e
        | Inr entry \<Rightarrow>
            (case unpack4 entry of
               Inl e \<Rightarrow> Inl e
             | Inr (_, w, _, _) \<Rightarrow> Inr (w \<noteq> None)))"

text \<open>\<^verbatim>\<open>FileCollectionPath.add_file\<close>: the path object holds the collection and \<open>parts\<close>.\<close>

definition add_file ::
  "('r, 'w, 't) fileentry direntries \<Rightarrow> name list \<Rightarrow> 'r option \<Rightarrow> 'w option \<Rightarrow> int option \<Rightarrow>
   't option \<Rightarrow> ('r, 'w, 't) fileentry direntries \<times> (error + unit)" where
  "add_file rootentries parts r w s t = add_fileentry rootentries parts (Tuple4 r w s t)"

subsection \<open>Sequences of calls\<close>

text \<open>
  \<^verbatim>\<open>mkdirs(dirparts)\<close> followed by \<^verbatim>\<open>add_fileentry(parts, fileentry)\<close>: an exception of
  the first call ends the sequence.
\<close>

definition mkdirs_then_add_fileentry ::
  "'e direntries \<Rightarrow> name list \<Rightarrow> name list \<Rightarrow> 'e \<Rightarrow> 'e direntries \<times> (error + unit)" where
  "mkdirs_then_add_fileentry rootentries dirparts parts fileentry =
     (case mkdirs rootentries dirparts of
        (root1, Inl e) \<Rightarrow> (root1, Inl e)
      | (root1, Inr _) \<Rightarrow> add_fileentry root1 parts fileentry)"


text \<open>
  The trees a collection can hold: the one \<^verbatim>\<open>__init__\<close> builds, and what any method
  leaves behind, whether it returns or raises. The methods that only read
  (\<^verbatim>\<open>get_fileentry\<close>, \<^verbatim>\<open>open_r\<close>, \<^verbatim>\<open>open_w\<close>, \<^verbatim>\<open>list\<close>, \<^verbatim>\<open>filesize\<close>, \<^verbatim>\<open>mtime\<close>,
  \<^verbatim>\<open>is_file\<close>, \<^verbatim>\<open>is_dir\<close>, \<^verbatim>\<open>writable\<close>) touch the tree through
  \<^verbatim>\<open>get_direntries(parts)\<close> with \<^verbatim>\<open>create=False\<close> only; \<^verbatim>\<open>add_file\<close> is
  \<^verbatim>\<open>add_fileentry\<close> with a tuple.
\<close>

inductive reachable :: "'e direntries \<Rightarrow> bool" where
  init: "reachable init"
| add_fileentry: "reachable r \<Longrightarrow> reachable (fst (add_fileentry r parts fileentry))"
| mkdirs: "reachable r \<Longrightarrow> reachable (fst (mkdirs r parts))"
| rmdir: "reachable r \<Longrightarrow> reachable (fst (rmdir r parts))"
| unlink: "reachable r \<Longrightarrow> reachable (fst (unlink r parts))"
| touch: "reachable r \<Longrightarrow> reachable (fst (touch r parts))"
| rename: "reachable r \<Longrightarrow> reachable (fst (rename r srcparts tgtparts))"
| read_only: "reachable r \<Longrightarrow> reachable (fst (get_direntries r parts False))"


subsection \<open>Observing a tree\<close>

text \<open>
  Three functions that only read a tree and are used to state and prove properties:
  the directory at a path, the file entry that a directory holds under a name that is not
  also one of its subdirectories, and the file entry at a path.
\<close>

fun dir_at :: "'e direntries \<Rightarrow> name list \<Rightarrow> 'e direntries option" where
  "dir_at d [] = Some d"
| "dir_at d (s # ss) = (case map_of (subdirs d) s of None \<Rightarrow> None | Some c \<Rightarrow> dir_at c ss)"

definition local_file :: "'e direntries \<Rightarrow> name \<Rightarrow> 'e option" where
  "local_file d x = (if has_key (subdirs d) x then None else map_of (fileentries d) x)"

fun file_at :: "'e direntries \<Rightarrow> name list \<Rightarrow> 'e option" where
  "file_at d [] = None"
| "file_at d [x] = local_file d x"
| "file_at d (s # x # xs) = (case map_of (subdirs d) s of None \<Rightarrow> None | Some c \<Rightarrow> file_at c (x # xs))"

text \<open>
  A file entry is registered at a path: the directory reached along \<^verbatim>\<open>parts[:-1]\<close> has
  \<^verbatim>\<open>parts[-1]\<close> among the keys of its file mapping \<^verbatim>\<open>entries[0]\<close>.
\<close>

definition registered_at :: "'e direntries \<Rightarrow> name list \<Rightarrow> bool" where
  "registered_at d p =
     (p \<noteq> [] \<and>
      (case dir_at d (butlast p) of
         None \<Rightarrow> False
       | Some n \<Rightarrow> has_key (fileentries n) (last p)))"

text \<open>
  No directory of the tree has a name both among its files and among its subdirectories.
\<close>

fun names_disjoint :: "'e direntries \<Rightarrow> bool" where
  "names_disjoint (Entries fs ds) =
     (list_all (\<lambda>x. \<not> has_key ds x) (map fst fs) \<and> list_all names_disjoint (map snd ds))"


section \<open>Properties\<close>

subsection \<open>Association lists\<close>

lemma has_key_map_of: "has_key d k \<longleftrightarrow> map_of d k \<noteq> None"
  by (simp add: has_key_def map_of_eq_None_iff)

lemma has_key_update: "has_key (AList.update k v d) k' \<longleftrightarrow> k' = k \<or> has_key d k'"
  by (simp add: has_key_map_of update_conv')

lemma has_key_delete: "has_key (AList.delete k d) k' \<longleftrightarrow> k' \<noteq> k \<and> has_key d k'"
  by (simp add: has_key_map_of delete_conv')

subsection \<open>The loop of get_direntries\<close>

text \<open>
  One step of the loop, by whether the next component is a subdirectory: the \<^verbatim>\<open>KeyError\<close>
  branch of the model is never taken.
\<close>

lemma loop_Cons:
  "get_direntries_loop create parts idx (s # rest) d =
     (case map_of (subdirs d) s of
        Some c \<Rightarrow>
          (case get_direntries_loop create parts (Suc idx) rest c of
             (c', r) \<Rightarrow> (Entries (fileentries d) (AList.update s c' (subdirs d)), r))
      | None \<Rightarrow>
          if create then
            if has_key (fileentries d) s then
              (d, Inl (FileExistsError (Bytes (join (take (Suc idx) parts)))))
            else
              (case get_direntries_loop create parts (Suc idx) rest (Entries [] []) of
                 (c', r) \<Rightarrow> (Entries (fileentries d) (AList.update s c' (subdirs d)), r))
          else (d, Inl (FileNotFoundError
                          (StrDecoded ''No such directory: '' (join (take (Suc idx) parts))))))"
  by (cases "map_of (subdirs d) s")
     (simp_all add: has_key_map_of update_conv' update_last split: prod.splits)

lemma loop_nocreate_fst: "fst (get_direntries_loop False parts idx rest d) = d"
proof (induction rest arbitrary: d idx)
  case Nil
  show ?case by simp
next
  case (Cons s rest)
  show ?case
  proof (cases "map_of (subdirs d) s")
    case None
    then show ?thesis by (simp add: loop_Cons del: get_direntries_loop.simps)
  next
    case (Some c)
    with Cons [of "Suc idx" c] show ?thesis
      by (cases "get_direntries_loop False parts (Suc idx) rest c")
         (simp add: loop_Cons update_triv del: get_direntries_loop.simps)
  qed
qed

lemma loop_nocreate_None:
  "dir_at d rest = None \<Longrightarrow>
   \<exists>m. snd (get_direntries_loop False parts idx rest d) = Inl (FileNotFoundError m)"
proof (induction rest arbitrary: d idx)
  case Nil
  then show ?case by simp
next
  case (Cons s rest)
  show ?case
  proof (cases "map_of (subdirs d) s")
    case None
    then show ?thesis by (simp add: loop_Cons del: get_direntries_loop.simps)
  next
    case (Some c)
    with Cons.prems have "dir_at c rest = None" by simp
    from Cons.IH [OF this, of "Suc idx"] Some show ?thesis
      by (cases "get_direntries_loop False parts (Suc idx) rest c")
         (auto simp add: loop_Cons simp del: get_direntries_loop.simps)
  qed
qed

lemma loop_found:
  "dir_at d rest = Some n \<Longrightarrow> get_direntries_loop create parts idx rest d = (d, Inr n)"
proof (induction rest arbitrary: d idx)
  case Nil
  then show ?case by simp
next
  case (Cons s rest)
  then obtain c where c: "map_of (subdirs d) s = Some c" and "dir_at c rest = Some n"
    by (auto split: option.splits)
  from Cons.IH [OF this(2), of "Suc idx"] c show ?case
    by (simp add: loop_Cons update_triv del: get_direntries_loop.simps)
qed

lemma loop_create_fresh:
  "\<exists>d'. get_direntries_loop True parts idx rest (Entries [] []) = (d', Inr (Entries [] []))"
proof (induction rest arbitrary: idx)
  case Nil
  show ?case by simp
next
  case (Cons s rest)
  from Cons [of "Suc idx"] show ?case
    by (auto simp add: loop_Cons has_key_def simp del: get_direntries_loop.simps)
qed

lemma loop_create_error:
  fixes d :: "'a direntries"
  shows "get_direntries_loop True parts idx rest d = (d', Inl e) \<Longrightarrow>
   d' = d \<and> (\<exists>m. e = FileExistsError m)"
proof (induction rest arbitrary: d d' idx)
  case Nil
  then show ?case by simp
next
  case (Cons s rest)
  show ?case
  proof (cases "map_of (subdirs d) s")
    case None
    obtain f :: "'a direntries"
      where "get_direntries_loop True parts (Suc idx) rest (Entries [] []) = (f, Inr (Entries [] []))"
      using loop_create_fresh by blast
    with None Cons.prems show ?thesis
      by (auto simp add: loop_Cons simp del: get_direntries_loop.simps split: if_splits)
  next
    case (Some c)
    obtain c' r where l: "get_direntries_loop True parts (Suc idx) rest c = (c', r)"
      by (cases "get_direntries_loop True parts (Suc idx) rest c")
    with Some Cons.prems have r: "r = Inl e" and d': "d' = Entries (fileentries d) (AList.update s c' (subdirs d))"
      by (simp_all add: loop_Cons del: get_direntries_loop.simps)
    from Cons.IH [OF l [unfolded r]] have "c' = c" and "\<exists>m. e = FileExistsError m" by simp_all
    with d' Some show ?thesis by (simp add: update_triv)
  qed
qed

lemma loop_create_ok:
  "get_direntries_loop True parts idx rest d = (d', Inr n) \<Longrightarrow> dir_at d' rest = Some n"
proof (induction rest arbitrary: d d' idx)
  case Nil
  then show ?case by auto
next
  case (Cons s rest)
  show ?case
  proof (cases "map_of (subdirs d) s")
    case None
    with Cons.prems show ?thesis
      by (auto simp add: loop_Cons update_conv' simp del: get_direntries_loop.simps
               split: if_splits prod.splits dest: Cons.IH)
  next
    case (Some c)
    with Cons.prems show ?thesis
      by (auto simp add: loop_Cons update_conv' simp del: get_direntries_loop.simps
               split: if_splits prod.splits dest: Cons.IH)
  qed
qed

lemma loop_create_new:
  fixes d :: "'a direntries"
  shows "get_direntries_loop True parts idx rest d = (d', Inr n) \<Longrightarrow> dir_at d rest = None \<Longrightarrow>
   n = Entries [] []"
proof (induction rest arbitrary: d d' idx)
  case Nil
  then show ?case by simp
next
  case (Cons s rest)
  show ?case
  proof (cases "map_of (subdirs d) s")
    case None
    obtain f :: "'a direntries"
      where "get_direntries_loop True parts (Suc idx) rest (Entries [] []) = (f, Inr (Entries [] []))"
      using loop_create_fresh by blast
    with None Cons.prems show ?thesis
      by (auto simp add: loop_Cons simp del: get_direntries_loop.simps split: if_splits)
  next
    case (Some c)
    with Cons.prems show ?thesis
      by (auto simp add: loop_Cons simp del: get_direntries_loop.simps
               split: if_splits prod.splits dest: Cons.IH)
  qed
qed

lemma dir_at_fresh: "dir_at (Entries [] []) q = (if q = [] then Some (Entries [] []) else None)"
  by (cases q) simp_all

lemma loop_create_dir_other:
  "get_direntries_loop True parts idx rest d = (d', Inr n) \<Longrightarrow> \<not> prefix q rest \<Longrightarrow>
   dir_at d' q = dir_at d q"
proof (induction rest arbitrary: d d' idx q)
  case Nil
  then show ?case by simp
next
  case (Cons s rest)
  from Cons.prems(2) obtain s' q' where q: "q = s' # q'" by (cases q) auto
  obtain c0 where c0: "c0 = (case map_of (subdirs d) s of None \<Rightarrow> Entries [] [] | Some c \<Rightarrow> c)" by simp
  obtain c' r where l: "get_direntries_loop True parts (Suc idx) rest c0 = (c', r)"
    by (cases "get_direntries_loop True parts (Suc idx) rest c0")
  from Cons.prems(1) l c0 have r: "r = Inr n" and d': "d' = Entries (fileentries d) (AList.update s c' (subdirs d))"
    by (auto simp add: loop_Cons simp del: get_direntries_loop.simps split: option.splits if_splits)
  show ?case
  proof (cases "s' = s")
    case False
    with q d' show ?thesis by (simp add: update_conv')
  next
    case True
    with Cons.prems(2) q have "\<not> prefix q' rest" by simp
    from Cons.IH [OF l [unfolded r] this] have "dir_at c' q' = dir_at c0 q'" .
    moreover from \<open>\<not> prefix q' rest\<close> have "q' \<noteq> []" by auto
    ultimately show ?thesis using q True d' c0
      by (simp add: update_conv' dir_at_fresh split: option.splits)
  qed
qed

lemma loop_create_dir_prefix:
  "get_direntries_loop True parts idx rest d = (d', Inr n) \<Longrightarrow> prefix q rest \<Longrightarrow>
   dir_at d' q \<noteq> None"
proof -
  assume l: "get_direntries_loop True parts idx rest d = (d', Inr n)" and "prefix q rest"
  then obtain r where rest: "rest = q @ r" by (auto simp: prefix_def)
  have *: "dir_at t (a @ b) = Some m \<Longrightarrow> dir_at t a \<noteq> None" for t :: "'a direntries" and a b m
    by (induction a arbitrary: t) (auto split: option.splits)
  from loop_create_ok [OF l] rest show ?thesis using * by blast
qed

subsection \<open>File entries after a walk in create mode\<close>

lemma local_file_fresh: "local_file (Entries [] []) x = None"
  by (simp add: local_file_def)

lemma file_at_fresh: "file_at (Entries [] []) q = None"
  by (induction "Entries [] [] :: 'a direntries" q rule: file_at.induct)
     (simp_all add: local_file_def)

lemma file_at_Cons:
  "file_at d (s # q) =
     (if q = [] then local_file d s
      else case map_of (subdirs d) s of None \<Rightarrow> None | Some c \<Rightarrow> file_at c q)"
  by (cases q) auto

lemma loop_create_file_at:
  fixes d :: "'a direntries"
  shows "get_direntries_loop True parts idx rest d = (d', Inr n) \<Longrightarrow> file_at d' q = file_at d q"
proof (induction rest arbitrary: d d' idx q)
  case Nil
  then show ?case by auto
next
  case (Cons s rest)
  obtain c0 :: "'a direntries"
    where c0: "c0 = (case map_of (subdirs d) s of None \<Rightarrow> Entries [] [] | Some c \<Rightarrow> c)" by simp
  obtain c' r where l: "get_direntries_loop True parts (Suc idx) rest c0 = (c', r)"
    by (cases "get_direntries_loop True parts (Suc idx) rest c0")
  from Cons.prems(1) l c0 have r: "r = Inr n"
    and d': "d' = Entries (fileentries d) (AList.update s c' (subdirs d))"
    and nf: "map_of (subdirs d) s = None \<Longrightarrow> \<not> has_key (fileentries d) s"
    by (auto simp add: loop_Cons simp del: get_direntries_loop.simps split: option.splits if_splits)
  have IH: "file_at c' q' = file_at c0 q'" for q'
    using Cons.IH [OF l [unfolded r]] .
  show ?case
  proof (cases q)
    case Nil
    then show ?thesis by simp
  next
    case (Cons s' q')
    show ?thesis
    proof (cases "q' = []")
      case True
      with Cons d' nf show ?thesis
        by (auto simp add: local_file_def has_key_map_of update_conv' split: if_splits)
    next
      case False
      with Cons d' IH [of q'] c0 show ?thesis
        by (auto simp add: file_at_Cons update_conv' file_at_fresh split: option.splits)
    qed
  qed
qed

subsection \<open>The directory at a path after a change in place\<close>

lemma modify_at_missing: "dir_at d p = None \<Longrightarrow> modify_at p f d = d"
proof (induction p arbitrary: d)
  case Nil
  then show ?case by simp
next
  case (Cons s p)
  then show ?case
    by (cases d) (auto simp add: update_triv split: option.splits)
qed

lemma dir_at_append:
  "dir_at d (p @ q) = (case dir_at d p of None \<Rightarrow> None | Some n \<Rightarrow> dir_at n q)"
  by (induction p arbitrary: d) (auto split: option.splits)

lemma dir_at_modify_at:
  "dir_at (modify_at p f d) q =
     (if prefix q p then map_option (modify_at (drop (length q) p) f) (dir_at d q)
      else if prefix p q then
        (case dir_at d p of None \<Rightarrow> None | Some n \<Rightarrow> dir_at (f n) (drop (length p) q))
      else dir_at d q)"
proof (induction p arbitrary: d q)
  case Nil
  then show ?case by (cases q) auto
next
  case (Cons s p)
  show ?case
  proof (cases q)
    case Nil
    then show ?thesis by simp
  next
    case q: (Cons s' q')
    show ?thesis
    proof (cases "map_of (subdirs d) s")
      case None
      with q show ?thesis by (auto split: option.splits)
    next
      case (Some c)
      with q Cons.IH [of c q'] show ?thesis
        by (auto simp add: update_conv' split: option.splits)
    qed
  qed
qed

lemma file_at_dir_at:
  "file_at d q =
     (if q = [] then None
      else case dir_at d (butlast q) of None \<Rightarrow> None | Some n \<Rightarrow> local_file n (last q))"
  by (induction d q rule: file_at.induct) (auto split: option.splits)

lemma local_file_modify_at_Cons: "local_file (modify_at (s # r) f n) x = local_file n x"
  by (auto simp add: local_file_def has_key_map_of update_conv' split: option.splits if_splits)

subsection \<open>The operations in terms of the tree\<close>

text \<open>
  Resolution without \<^verbatim>\<open>create\<close> leaves the tree as it is and finds exactly the directories
  of \<open>dir_at\<close>; \<^verbatim>\<open>get_fileentry\<close> finds exactly the entries of \<open>file_at\<close> and raises
  \<^verbatim>\<open>IsADirectoryError\<close> on a directory, \<^verbatim>\<open>FileNotFoundError\<close> otherwise.
\<close>

lemma get_direntries_found:
  "dir_at d p = Some n \<Longrightarrow> get_direntries d p create = (d, Inr n)"
  by (simp add: get_direntries_def loop_found)

lemma get_direntries_False_fst: "fst (get_direntries d p False) = d"
  by (simp add: get_direntries_def loop_nocreate_fst)

lemma get_direntries_False_missing:
  "dir_at d p = None \<Longrightarrow> \<exists>m. get_direntries d p False = (d, Inl (FileNotFoundError m))"
proof -
  assume "dir_at d p = None"
  from loop_nocreate_None [OF this, of p 0] obtain m
    where "snd (get_direntries d p False) = Inl (FileNotFoundError m)"
    by (auto simp add: get_direntries_def)
  with get_direntries_False_fst [of d p] show ?thesis
    by (cases "get_direntries d p False") auto
qed

lemma get_direntries_False_Inr:
  "snd (get_direntries d p False) = Inr n \<longleftrightarrow> dir_at d p = Some n"
proof (cases "dir_at d p")
  case None
  from get_direntries_False_missing [OF this] show ?thesis using None by auto
next
  case (Some a)
  from get_direntries_found [OF this, of False] show ?thesis using Some by auto
qed

lemma is_dir_dir_at: "is_dir d p = Inr (dir_at d p \<noteq> None)"
proof (cases "dir_at d p")
  case None
  from get_direntries_False_missing [OF this] show ?thesis using None
    by (auto simp add: is_dir_def except_IOError_def)
next
  case (Some a)
  from get_direntries_found [OF this, of False] show ?thesis using Some
    by (auto simp add: is_dir_def except_IOError_def)
qed

lemma list_dir_found:
  "dir_at d p = Some n \<Longrightarrow> list_dir d p = Inr (map fst (subdirs n) @ map fst (fileentries n))"
  by (simp add: list_dir_def get_direntries_found)

lemma list_dir_missing:
  "dir_at d p = None \<Longrightarrow> \<exists>m. list_dir d p = Inl (FileNotFoundError m)"
  using get_direntries_False_missing [of d p] by (auto simp add: list_dir_def)

lemma get_fileentry_root:
  "get_fileentry d [] = Inl (IsADirectoryError (Str ''FileCollection.root is a directory''))"
  by (simp add: get_fileentry_def)

lemma get_fileentry_no_parent:
  "p \<noteq> [] \<Longrightarrow> dir_at d (butlast p) = None \<Longrightarrow> \<exists>m. get_fileentry d p = Inl (FileNotFoundError m)"
  using get_direntries_False_missing [of d "butlast p"] by (auto simp add: get_fileentry_def)

lemma get_fileentry_parent:
  "p \<noteq> [] \<Longrightarrow> dir_at d (butlast p) = Some n \<Longrightarrow>
   get_fileentry d p =
     (if has_key (subdirs n) (last p) then Inl (IsADirectoryError (Bytes (join p)))
      else case map_of (fileentries n) (last p) of
             None \<Rightarrow> Inl (FileNotFoundError (Bytes (join p)))
           | Some e \<Rightarrow> Inr e)"
  by (auto simp add: get_fileentry_def get_direntries_found has_key_map_of split: option.splits)

lemma get_fileentry_Inr: "get_fileentry d p = Inr e \<longleftrightarrow> file_at d p = Some e"
proof (cases "p = []")
  case True
  then show ?thesis by (simp add: get_fileentry_root)
next
  case False
  show ?thesis
  proof (cases "dir_at d (butlast p)")
    case None
    from get_fileentry_no_parent [OF False None] None False show ?thesis
      by (auto simp add: file_at_dir_at)
  next
    case (Some n)
    from get_fileentry_parent [OF False Some] Some False show ?thesis
      by (auto simp add: file_at_dir_at local_file_def split: option.splits)
  qed
qed

lemma dir_at_snoc:
  "dir_at d (p @ [x]) = (case dir_at d p of None \<Rightarrow> None | Some n \<Rightarrow> map_of (subdirs n) x)"
  by (simp add: dir_at_append split: option.splits)

lemma dir_at_butlast_last:
  "p \<noteq> [] \<Longrightarrow>
   dir_at d p = (case dir_at d (butlast p) of None \<Rightarrow> None | Some n \<Rightarrow> map_of (subdirs n) (last p))"
  using dir_at_snoc [of d "butlast p" "last p"] by simp

lemma get_fileentry_Inl:
  "get_fileentry d p = Inl err \<Longrightarrow>
   (if dir_at d p \<noteq> None then \<exists>m. err = IsADirectoryError m else \<exists>m. err = FileNotFoundError m)"
proof (cases "p = []")
  case True
  assume "get_fileentry d p = Inl err"
  with True show ?thesis by (auto simp add: get_fileentry_root)
next
  case False
  assume e: "get_fileentry d p = Inl err"
  show ?thesis
  proof (cases "dir_at d (butlast p)")
    case None
    from get_fileentry_no_parent [OF False None] e None False show ?thesis
      by (auto simp add: dir_at_butlast_last)
  next
    case (Some n)
    from get_fileentry_parent [OF False Some] e Some False show ?thesis
      by (auto simp add: dir_at_butlast_last has_key_map_of split: option.splits if_splits)
  qed
qed

lemma is_file_file_at: "is_file d p = Inr (file_at d p \<noteq> None)"
proof (cases "get_fileentry d p")
  case (Inl err)
  from get_fileentry_Inl [OF Inl] have "is_IOError err" by (auto split: if_splits)
  moreover from Inl have "file_at d p = None"
    using get_fileentry_Inr [of d p] by (cases "file_at d p") auto
  ultimately show ?thesis using Inl by (simp add: is_file_def except_IOError_def)
next
  case (Inr e)
  then show ?thesis using get_fileentry_Inr [of d p e]
    by (simp add: is_file_def except_IOError_def)
qed

subsection \<open>The message of a failed resolution\<close>

lemma loop_nocreate_shadow:
  "dir_at d pre = Some n \<Longrightarrow> map_of (subdirs n) s = None \<Longrightarrow>
   snd (get_direntries_loop False parts idx (pre @ s # rest) d) =
     Inl (FileNotFoundError
            (StrDecoded ''No such directory: '' (join (take (idx + length pre + 1) parts))))"
proof (induction pre arbitrary: d idx)
  case Nil
  then show ?case by (simp add: loop_Cons del: get_direntries_loop.simps)
next
  case (Cons a pre)
  then obtain c where c: "map_of (subdirs d) a = Some c" and "dir_at c pre = Some n"
    by (auto split: option.splits)
  from Cons.IH [OF this(2) Cons.prems(2), of "Suc idx"] c show ?case
    by (cases "get_direntries_loop False parts (Suc idx) (pre @ s # rest) c")
       (simp add: loop_Cons del: get_direntries_loop.simps)
qed

lemma get_direntries_shadow:
  "dir_at d pre = Some n \<Longrightarrow> map_of (subdirs n) s = None \<Longrightarrow>
   get_direntries d (pre @ s # rest) False =
     (d, Inl (FileNotFoundError (StrDecoded ''No such directory: '' (join (pre @ [s])))))"
proof -
  assume a: "dir_at d pre = Some n" "map_of (subdirs n) s = None"
  from loop_nocreate_shadow [OF a, of "pre @ s # rest" 0 rest]
  have "snd (get_direntries d (pre @ s # rest) False) =
          Inl (FileNotFoundError (StrDecoded ''No such directory: '' (join (pre @ [s]))))"
    by (simp add: get_direntries_def)
  with get_direntries_False_fst [of d "pre @ s # rest"] show ?thesis
    by (cases "get_direntries d (pre @ s # rest) False") auto
qed

subsection \<open>When a walk in create mode raises\<close>

text \<open>
  The walk raises exactly when a prefix of the path is a file: a name that is in the
  file mapping of the directory reached and not among its subdirectories.
\<close>

lemma loop_create_fails_iff:
  fixes d :: "'a direntries"
  shows "(\<exists>e. snd (get_direntries_loop True parts idx rest d) = Inl e) \<longleftrightarrow>
         (\<exists>q. prefix q rest \<and> file_at d q \<noteq> None)"
proof (induction rest arbitrary: d idx)
  case Nil
  show ?case by simp
next
  case (Cons s rest)
  have shape: "(\<exists>q. prefix q (s # rest) \<and> file_at d q \<noteq> None) \<longleftrightarrow>
               local_file d s \<noteq> None \<or>
               (\<exists>q'. q' \<noteq> [] \<and> prefix q' rest \<and> file_at d (s # q') \<noteq> None)"
  proof
    assume "\<exists>q. prefix q (s # rest) \<and> file_at d q \<noteq> None"
    then obtain q where q: "prefix q (s # rest)" "file_at d q \<noteq> None" by blast
    then obtain q' where q': "q = s # q'" "prefix q' rest" by (cases q) auto
    show "local_file d s \<noteq> None \<or>
          (\<exists>q'. q' \<noteq> [] \<and> prefix q' rest \<and> file_at d (s # q') \<noteq> None)"
    proof (cases "q' = []")
      case True
      with q q' show ?thesis by simp
    next
      case False
      with q q' show ?thesis by blast
    qed
  next
    assume "local_file d s \<noteq> None \<or>
            (\<exists>q'. q' \<noteq> [] \<and> prefix q' rest \<and> file_at d (s # q') \<noteq> None)"
    then show "\<exists>q. prefix q (s # rest) \<and> file_at d q \<noteq> None"
    proof
      assume "local_file d s \<noteq> None"
      then have "prefix [s] (s # rest) \<and> file_at d [s] \<noteq> None" by simp
      then show ?thesis by blast
    next
      assume "\<exists>q'. q' \<noteq> [] \<and> prefix q' rest \<and> file_at d (s # q') \<noteq> None"
      then obtain q' where "prefix (s # q') (s # rest) \<and> file_at d (s # q') \<noteq> None" by auto
      then show ?thesis by blast
    qed
  qed
  show ?case
  proof (cases "map_of (subdirs d) s")
    case None
    obtain f :: "'a direntries"
      where f: "get_direntries_loop True parts (Suc idx) rest (Entries [] []) = (f, Inr (Entries [] []))"
      using loop_create_fresh by blast
    have A: "(\<exists>e. snd (get_direntries_loop True parts idx (s # rest) d) = Inl e) \<longleftrightarrow>
          has_key (fileentries d) s"
      using None f by (simp add: loop_Cons del: get_direntries_loop.simps)
    have B: "local_file d s \<noteq> None \<longleftrightarrow> has_key (fileentries d) s"
      using None by (simp add: local_file_def has_key_map_of)
    have C: "\<not> (\<exists>q'. q' \<noteq> [] \<and> prefix q' rest \<and> file_at d (s # q') \<noteq> None)"
    proof
      assume "\<exists>q'. q' \<noteq> [] \<and> prefix q' rest \<and> file_at d (s # q') \<noteq> None"
      then obtain q' where "q' \<noteq> []" and "file_at d (s # q') \<noteq> None" by blast
      with None show False by (simp add: file_at_Cons)
    qed
    have R: "(local_file d s \<noteq> None \<or>
              (\<exists>q'. q' \<noteq> [] \<and> prefix q' rest \<and> file_at d (s # q') \<noteq> None)) \<longleftrightarrow>
             has_key (fileentries d) s"
      using B C by blast
    show ?thesis unfolding shape A R by (rule refl)
  next
    case (Some c)
    have "(\<exists>e. snd (get_direntries_loop True parts idx (s # rest) d) = Inl e) \<longleftrightarrow>
          (\<exists>e. snd (get_direntries_loop True parts (Suc idx) rest c) = Inl e)"
      using Some
      by (cases "get_direntries_loop True parts (Suc idx) rest c")
         (simp add: loop_Cons del: get_direntries_loop.simps)
    also have "\<dots> \<longleftrightarrow> (\<exists>q. prefix q rest \<and> file_at c q \<noteq> None)"
      by (rule Cons.IH)
    also have "\<dots> \<longleftrightarrow> (\<exists>q'. q' \<noteq> [] \<and> prefix q' rest \<and> file_at c q' \<noteq> None)"
    proof
      assume "\<exists>q. prefix q rest \<and> file_at c q \<noteq> None"
      then obtain q where q: "prefix q rest" "file_at c q \<noteq> None" by blast
      from q(2) have "q \<noteq> []" by auto
      with q show "\<exists>q'. q' \<noteq> [] \<and> prefix q' rest \<and> file_at c q' \<noteq> None" by blast
    next
      assume "\<exists>q'. q' \<noteq> [] \<and> prefix q' rest \<and> file_at c q' \<noteq> None"
      then show "\<exists>q. prefix q rest \<and> file_at c q \<noteq> None" by blast
    qed
    finally have 1: "(\<exists>e. snd (get_direntries_loop True parts idx (s # rest) d) = Inl e) \<longleftrightarrow>
          (\<exists>q'. q' \<noteq> [] \<and> prefix q' rest \<and> file_at c q' \<noteq> None)" .
    have 2: "local_file d s = None"
      using Some by (simp add: local_file_def has_key_map_of)
    have 3: "(q' \<noteq> [] \<and> prefix q' rest \<and> file_at d (s # q') \<noteq> None) \<longleftrightarrow>
             (q' \<noteq> [] \<and> prefix q' rest \<and> file_at c q' \<noteq> None)" for q'
      using Some by (auto simp add: file_at_Cons)
    show ?thesis unfolding shape 1 3 using 2 by simp
  qed
qed

lemma strict_prefix_butlast:
  "parts \<noteq> [] \<Longrightarrow> strict_prefix q parts \<longleftrightarrow> prefix q (butlast parts)"
proof -
  assume "parts \<noteq> []"
  then have p: "parts = butlast parts @ [last parts]" by simp
  have "strict_prefix q (butlast parts @ [last parts]) \<longleftrightarrow> prefix q (butlast parts)"
    by (auto simp add: strict_prefix_def prefix_snoc)
  with p show ?thesis by simp
qed

lemma file_at_blocks_dir_at:
  "file_at d q \<noteq> None \<Longrightarrow> prefix q p \<Longrightarrow> dir_at d p = None"
proof -
  assume f: "file_at d q \<noteq> None" and "prefix q p"
  then obtain r where p: "p = q @ r" by (auto simp add: prefix_def)
  from f have "q \<noteq> []" by auto
  with f have "dir_at d q = None"
    by (auto simp add: file_at_dir_at dir_at_butlast_last local_file_def has_key_map_of
             split: option.splits if_splits)
  then show ?thesis by (simp add: p dir_at_append)
qed


subsection \<open>Registered file entries\<close>

lemma registered_at_file_at:
  "registered_at d p \<Longrightarrow> dir_at d p = None \<Longrightarrow> file_at d p \<noteq> None"
  by (auto simp add: registered_at_def file_at_dir_at local_file_def dir_at_butlast_last
        has_key_map_of split: option.splits)

lemma file_at_registered_at: "file_at d p \<noteq> None \<Longrightarrow> registered_at d p"
  by (auto simp add: registered_at_def file_at_dir_at local_file_def has_key_map_of
        split: option.splits if_splits)

lemma registered_at_init: "\<not> registered_at init p"
  by (cases "butlast p") (simp_all add: registered_at_def init_def has_key_def)

lemma is_dir_root: "is_dir rootentries [] = Inr True"
  by (simp add: is_dir_dir_at)

subsection \<open>Changing the directory at a path\<close>

lemma dir_at_files_only:
  assumes "\<And>n. subdirs (f n) = subdirs n" and "r \<noteq> []"
  shows "dir_at (f n) r = dir_at n r"
  using assms by (cases r) simp_all

lemma dir_at_modify_at_files:
  assumes f: "\<And>n. subdirs (f n) = subdirs n"
  shows "dir_at (modify_at p f d) q = None \<longleftrightarrow> dir_at d q = None"
proof -
  consider "prefix q p" | "\<not> prefix q p" "prefix p q" | "\<not> prefix q p" "\<not> prefix p q" by blast
  then show ?thesis
  proof cases
    case 1
    then show ?thesis by (simp add: dir_at_modify_at)
  next
    case 2
    then obtain r where q: "q = p @ r" and r: "r \<noteq> []" by (auto simp add: prefix_def)
    show ?thesis using 2 dir_at_files_only [of f r, OF f r]
      by (simp add: dir_at_modify_at q dir_at_append split: option.splits)
  next
    case 3
    then show ?thesis by (simp add: dir_at_modify_at)
  qed
qed

lemma file_at_modify_at_files:
  assumes f: "\<And>n. subdirs (f n) = subdirs n"
  shows "file_at (modify_at p f d) q =
           (if q \<noteq> [] \<and> butlast q = p then
              (case dir_at d p of None \<Rightarrow> None | Some n \<Rightarrow> local_file (f n) (last q))
            else file_at d q)"
proof (cases "q = []")
  case True
  then show ?thesis by simp
next
  case False
  define bq where "bq = butlast q"
  consider "bq = p" | "prefix bq p" "bq \<noteq> p" | "\<not> prefix bq p" "prefix p bq"
    | "\<not> prefix bq p" "\<not> prefix p bq" by blast
  then have "(case dir_at (modify_at p f d) bq of None \<Rightarrow> None | Some n \<Rightarrow> local_file n (last q)) =
             (if bq = p then
                (case dir_at d p of None \<Rightarrow> None | Some n \<Rightarrow> local_file (f n) (last q))
              else (case dir_at d bq of None \<Rightarrow> None | Some n \<Rightarrow> local_file n (last q)))"
  proof cases
    case 1
    then show ?thesis by (simp add: dir_at_modify_at split: option.splits)
  next
    case 2
    then obtain r where p: "p = bq @ r" and r: "r \<noteq> []" by (auto simp add: prefix_def)
    then obtain s r' where "r = s # r'" by (cases r) auto
    with 2 p show ?thesis
      by (simp add: dir_at_modify_at local_file_modify_at_Cons del: modify_at.simps
               split: option.splits)
  next
    case 3
    then obtain r where q: "bq = p @ r" and r: "r \<noteq> []" by (auto simp add: prefix_def)
    show ?thesis using 3 dir_at_files_only [of f r, OF f r]
      by (simp add: dir_at_modify_at q dir_at_append split: option.splits)
  next
    case 4
    then show ?thesis by (auto simp add: dir_at_modify_at)
  qed
  with False show ?thesis by (simp add: file_at_dir_at bq_def)
qed


subsection \<open>Names of files and of subdirectories stay apart\<close>

lemma names_disjoint_iff:
  "names_disjoint d \<longleftrightarrow>
     (\<forall>x. \<not> (has_key (fileentries d) x \<and> has_key (subdirs d) x)) \<and>
     (\<forall>c \<in> snd ` set (subdirs d). names_disjoint c)"
  by (cases d) (auto simp add: list_all_iff has_key_def)

lemma set_update_subset: "set (AList.update k v al) \<subseteq> insert (k, v) (set al)"
  by (induction al) auto

lemma set_delete_subset: "set (AList.delete k al) \<subseteq> set al"
  by (auto simp add: AList.delete_eq)

lemma names_disjoint_update:
  assumes "names_disjoint d" and "names_disjoint c" and "has_key (subdirs d) s \<or> \<not> has_key (fileentries d) s"
  shows "names_disjoint (Entries (fileentries d) (AList.update s c (subdirs d)))"
  using assms set_update_subset [of s c "subdirs d"]
  unfolding names_disjoint_iff [of d] names_disjoint_iff [of "Entries _ _"]
  by (auto simp add: has_key_update)

lemma names_disjoint_fresh: "names_disjoint (Entries [] [])"
  by simp

lemma names_disjoint_child:
  "names_disjoint d \<Longrightarrow> map_of (subdirs d) s = Some c \<Longrightarrow> names_disjoint c"
  unfolding names_disjoint_iff [of d] by (force dest: map_of_SomeD)

lemma names_disjoint_dir_at:
  "names_disjoint d \<Longrightarrow> dir_at d p = Some n \<Longrightarrow> names_disjoint n"
proof (induction p arbitrary: d)
  case Nil
  then show ?case by simp
next
  case (Cons s p)
  then show ?case by (auto split: option.splits dest: names_disjoint_child)
qed

lemma names_disjoint_loop:
  fixes d :: "'a direntries"
  shows "names_disjoint d \<Longrightarrow> names_disjoint (fst (get_direntries_loop create parts idx rest d))"
proof (induction rest arbitrary: d idx)
  case Nil
  then show ?case by simp
next
  case (Cons s rest)
  show ?case
  proof (cases "map_of (subdirs d) s")
    case None
    then have nk: "\<not> has_key (subdirs d) s" by (simp add: has_key_map_of)
    have "names_disjoint
            (fst (get_direntries_loop create parts (Suc idx) rest (Entries [] [] :: 'a direntries)))"
      by (rule Cons.IH) simp
    with None Cons.prems show ?thesis
      by (auto simp add: loop_Cons simp del: get_direntries_loop.simps names_disjoint.simps
               split: prod.splits intro!: names_disjoint_update)
  next
    case (Some c)
    then have k: "has_key (subdirs d) s" by (simp add: has_key_map_of)
    from Cons.IH [OF names_disjoint_child [OF Cons.prems Some], of "Suc idx"]
    have "names_disjoint (fst (get_direntries_loop create parts (Suc idx) rest c))" .
    with Some Cons.prems k show ?thesis
      by (auto simp add: loop_Cons simp del: get_direntries_loop.simps names_disjoint.simps
               split: prod.splits intro!: names_disjoint_update)
  qed
qed

lemma names_disjoint_get_direntries:
  "names_disjoint d \<Longrightarrow> names_disjoint (fst (get_direntries d parts create))"
  by (simp add: get_direntries_def names_disjoint_loop)

lemma names_disjoint_modify_at:
  assumes "names_disjoint d"
    and "\<And>n. dir_at d p = Some n \<Longrightarrow> names_disjoint n \<Longrightarrow> names_disjoint (f n)"
  shows "names_disjoint (modify_at p f d)"
  using assms
proof (induction p arbitrary: d)
  case Nil
  then show ?case by simp
next
  case (Cons s p)
  show ?case
  proof (cases "map_of (subdirs d) s")
    case None
    with Cons.prems(1) show ?thesis by simp
  next
    case (Some c)
    have "names_disjoint (modify_at p f c)"
    proof (rule Cons.IH)
      show "names_disjoint c" using Cons.prems(1) Some by (rule names_disjoint_child)
      show "\<And>n. dir_at c p = Some n \<Longrightarrow> names_disjoint n \<Longrightarrow> names_disjoint (f n)"
        using Cons.prems(2) Some by simp
    qed
    moreover from Some have "has_key (subdirs d) s" by (simp add: has_key_map_of)
    ultimately show ?thesis using Some Cons.prems(1)
      by (simp add: names_disjoint_update del: names_disjoint.simps)
  qed
qed

lemma names_disjoint_add_file:
  "names_disjoint n \<Longrightarrow> \<not> has_key (subdirs n) x \<Longrightarrow>
   names_disjoint (Entries (AList.update x e (fileentries n)) (subdirs n))"
  unfolding names_disjoint_iff [of n] names_disjoint_iff [of "Entries _ _"]
  by (auto simp add: has_key_update)

lemma names_disjoint_delete_file:
  "names_disjoint n \<Longrightarrow> names_disjoint (Entries (AList.delete x (fileentries n)) (subdirs n))"
  unfolding names_disjoint_iff [of n] names_disjoint_iff [of "Entries _ _"]
  by (auto simp add: has_key_delete)

lemma names_disjoint_delete_subdir:
  "names_disjoint n \<Longrightarrow> names_disjoint (Entries (fileentries n) (AList.delete x (subdirs n)))"
  unfolding names_disjoint_iff [of n] names_disjoint_iff [of "Entries _ _"]
  using set_delete_subset [of x "subdirs n"] by (auto simp add: has_key_delete)

lemma names_disjoint_add_fileentry:
  assumes "names_disjoint r"
  shows "names_disjoint (fst (add_fileentry r parts fileentry))"
proof (cases "parts = []")
  case True
  with assms show ?thesis by (simp add: add_fileentry_def)
next
  case False
  obtain root1 res where g: "get_direntries r (butlast parts) True = (root1, res)"
    by (cases "get_direntries r (butlast parts) True")
  from names_disjoint_get_direntries [OF assms, of "butlast parts" True] g
  have r1: "names_disjoint root1" by simp
  show ?thesis
  proof (cases res)
    case (Inl e)
    with g False r1 show ?thesis by (simp add: add_fileentry_def)
  next
    case (Inr entries)
    with g have d: "dir_at root1 (butlast parts) = Some entries"
      by (simp add: get_direntries_def loop_create_ok)
    show ?thesis
    proof (cases "has_key (subdirs entries) (last parts)")
      case True
      with g Inr False r1 show ?thesis by (simp add: add_fileentry_def)
    next
      case nk: False
      have "names_disjoint (modify_at (butlast parts)
              (\<lambda>d. Entries (AList.update (last parts) fileentry (fileentries d)) (subdirs d)) root1)"
        using r1
      proof (rule names_disjoint_modify_at)
        fix n assume "dir_at root1 (butlast parts) = Some n" and "names_disjoint n"
        with d nk show "names_disjoint (Entries (AList.update (last parts) fileentry (fileentries n)) (subdirs n))"
          by (simp add: names_disjoint_add_file del: names_disjoint.simps)
      qed
      with g Inr False nk show ?thesis by (simp add: add_fileentry_def)
    qed
  qed
qed

lemma names_disjoint_mkdirs: "names_disjoint r \<Longrightarrow> names_disjoint (fst (mkdirs r parts))"
  using names_disjoint_get_direntries [of r parts True]
  by (auto simp add: mkdirs_def split: prod.splits sum.splits)

lemma names_disjoint_rmdir:
  assumes "names_disjoint r"
  shows "names_disjoint (fst (rmdir r parts))"
proof -
  have m: "names_disjoint (modify_at (butlast parts)
              (\<lambda>d. Entries (fileentries d) (AList.delete (last parts) (subdirs d))) r)"
    using assms by (rule names_disjoint_modify_at) (rule names_disjoint_delete_subdir)
  have "fst (get_direntries r (butlast parts) False) = r" by (rule get_direntries_False_fst)
  with assms m show ?thesis
    by (auto simp add: rmdir_def Let_def simp del: names_disjoint.simps
             split: prod.splits sum.splits option.splits)
qed

lemma names_disjoint_unlink:
  assumes "names_disjoint r"
  shows "names_disjoint (fst (unlink r parts))"
proof -
  have m: "names_disjoint (modify_at (butlast parts)
              (\<lambda>d. Entries (AList.delete (last parts) (fileentries d)) (subdirs d)) r)"
    using assms by (rule names_disjoint_modify_at) (rule names_disjoint_delete_file)
  have "fst (get_direntries r (butlast parts) False) = r" by (rule get_direntries_False_fst)
  with assms m show ?thesis
    by (auto simp add: unlink_def Let_def simp del: names_disjoint.simps
             split: prod.splits sum.splits option.splits)
qed

lemma reachable_names_disjoint: "reachable r \<Longrightarrow> names_disjoint r"
proof (induction rule: reachable.induct)
  case init
  show ?case by (simp add: init_def)
next
  case (add_fileentry r parts fileentry)
  then show ?case by (simp only: names_disjoint_add_fileentry)
next
  case (mkdirs r parts)
  then show ?case by (simp only: names_disjoint_mkdirs)
next
  case (rmdir r parts)
  then show ?case by (simp only: names_disjoint_rmdir)
next
  case (unlink r parts)
  then show ?case by (simp only: names_disjoint_unlink)
next
  case (touch r parts)
  then show ?case by (simp add: touch_def del: names_disjoint.simps)
next
  case (rename r srcparts tgtparts)
  then show ?case by (simp add: rename_def del: names_disjoint.simps)
next
  case (read_only r parts)
  then show ?case by (simp only: names_disjoint_get_direntries)
qed


subsection \<open>Evaluating the operations on concrete trees\<close>

lemmas eval_defs = get_direntries_def add_fileentry_def get_fileentry_def is_file_def is_dir_def
  except_IOError_def has_key_def list_dir_def mkdirs_def rmdir_def unlink_def open_r_def open_w_def
  filesize_def mtime_def writable_def add_file_def init_def FileEntry_base_def Let_def

section \<open>The claims\<close>

subsection \<open>Registering a file entry\<close>

lemma add_fileentry_ok:
  assumes "add_fileentry rootentries parts fileentry = (root', Inr ())"
  obtains root1 entries where "parts \<noteq> []"
    and "get_direntries rootentries (butlast parts) True = (root1, Inr entries)"
    and "dir_at root1 (butlast parts) = Some entries"
    and "\<not> has_key (subdirs entries) (last parts)"
    and "root' = modify_at (butlast parts)
           (\<lambda>d. Entries (AList.update (last parts) fileentry (fileentries d)) (subdirs d)) root1"
proof -
  from assms have ne: "parts \<noteq> []" by (auto simp add: add_fileentry_def)
  obtain root1 r where g: "get_direntries rootentries (butlast parts) True = (root1, r)"
    by (cases "get_direntries rootentries (butlast parts) True")
  with assms ne obtain entries where r: "r = Inr entries"
    by (cases r) (auto simp add: add_fileentry_def)
  from g r have "dir_at root1 (butlast parts) = Some entries"
    by (simp add: get_direntries_def loop_create_ok)
  moreover from assms ne g r have "\<not> has_key (subdirs entries) (last parts)"
    and "root' = modify_at (butlast parts)
           (\<lambda>d. Entries (AList.update (last parts) fileentry (fileentries d)) (subdirs d)) root1"
    by (auto simp add: add_fileentry_def Let_def split: if_splits)
  ultimately show thesis using that ne g r by blast
qed

lemma add_fileentry_IsADirectory:
  assumes "parts \<noteq> []"
    and "snd (get_direntries rootentries (butlast parts) True) = Inr entries"
    and "has_key (subdirs entries) (last parts)"
  shows "add_fileentry rootentries parts fileentry =
           (rootentries, Inl (IsADirectoryError (Bytes (join parts))))"
proof -
  obtain root1 where g: "get_direntries rootentries (butlast parts) True = (root1, Inr entries)"
    using assms(2) by (cases "get_direntries rootentries (butlast parts) True") auto
  have "dir_at rootentries (butlast parts) \<noteq> None"
  proof
    assume "dir_at rootentries (butlast parts) = None"
    with g have "entries = Entries [] []"
      by (auto simp add: get_direntries_def dest: loop_create_new)
    with assms(3) show False by (simp add: has_key_def)
  qed
  then obtain n where "dir_at rootentries (butlast parts) = Some n" by auto
  from get_direntries_found [OF this, of True] g have "root1 = rootentries" by simp
  with g assms show ?thesis by (simp add: add_fileentry_def)
qed

text \<open>
  Claim C1, as the code has it. \<^verbatim>\<open>add_fileentry\<close> on the empty path raises
  \<^verbatim>\<open>IsADirectoryError\<close>. On a non-empty path whose parent resolves (in create mode) to a
  directory that has the final name among its subdirectories it raises
  \<^verbatim>\<open>IsADirectoryError(b"/".join(parts))\<close>, not \<^verbatim>\<open>FileExistsError\<close>. In both cases the
  tree is left as it was, so no file entry is stored.
\<close>

theorem register_on_directory:
  "(parts = [] \<longrightarrow>
      add_fileentry rootentries parts fileentry =
        (rootentries, Inl (IsADirectoryError (Str ''FileCollection.root is a directory''))))
 \<and> (parts \<noteq> [] \<and> snd (get_direntries rootentries (butlast parts) True) = Inr entries
      \<and> has_key (subdirs entries) (last parts) \<longrightarrow>
      add_fileentry rootentries parts fileentry =
        (rootentries, Inl (IsADirectoryError (Bytes (join parts)))))"
  using add_fileentry_IsADirectory [of parts rootentries entries fileentry]
  by (simp add: add_fileentry_def)

theorem register_on_directory_witness:
  "add_fileentry (Entries [] [(''a'', Entries [] [])] :: (nat, nat, nat) fileentry direntries) [''a'']
     FileEntry_base
     = (Entries [] [(''a'', Entries [] [])], Inl (IsADirectoryError (Bytes ''a'')))
   \<and> add_fileentry (Entries [] [(''a'', Entries [] [])] :: (nat, nat, nat) fileentry direntries) []
     FileEntry_base
     = (Entries [] [(''a'', Entries [] [])],
        Inl (IsADirectoryError (Str ''FileCollection.root is a directory'')))"
proof -
  have h: "[''a''] \<noteq> [] \<and>
     snd (get_direntries (Entries [] [(''a'', Entries [] [])] :: (nat, nat, nat) fileentry direntries)
            (butlast [''a'']) True) = Inr (Entries [] [(''a'', Entries [] [])])
     \<and> has_key (subdirs (Entries [] [(''a'', Entries [] [])] :: (nat, nat, nat) fileentry direntries))
          (last [''a''])"
    by (simp add: get_direntries_def has_key_def)
  have a: "add_fileentry (Entries [] [(''a'', Entries [] [])] :: (nat, nat, nat) fileentry direntries)
              [''a''] FileEntry_base
            = (Entries [] [(''a'', Entries [] [])], Inl (IsADirectoryError (Bytes (join [''a'']))))"
    using h
      register_on_directory [of "[''a'']" "Entries [] [(''a'', Entries [] [])]" FileEntry_base
        "Entries [] [(''a'', Entries [] [])]"]
    by blast
  have b: "add_fileentry (Entries [] [(''a'', Entries [] [])] :: (nat, nat, nat) fileentry direntries)
              [] FileEntry_base
            = (Entries [] [(''a'', Entries [] [])],
               Inl (IsADirectoryError (Str ''FileCollection.root is a directory'')))"
    using register_on_directory [of "[]" "Entries [] [(''a'', Entries [] [])]" FileEntry_base
        "Entries [] [(''a'', Entries [] [])]"]
    by blast
  from a b show ?thesis by simp
qed

text \<open>
  Claim C1 as stated fails: the collection holds the directory \<open>a\<close>, the path \<open>a\<close> names
  that subdirectory of the root, and registering a file at \<open>a\<close> raises
  \<^verbatim>\<open>IsADirectoryError\<close>, which is not the class \<^verbatim>\<open>FileExistsError\<close>.
\<close>

theorem register_on_directory_counterexample:
  "snd (get_direntries (Entries [] [(''a'', Entries [] [])] :: (nat, nat, nat) fileentry direntries)
          (butlast [''a'']) True) = Inr (Entries [] [(''a'', Entries [] [])])
   \<and> has_key (subdirs (Entries [] [(''a'', Entries [] [])] :: (nat, nat, nat) fileentry direntries))
        (last [''a''])
   \<and> snd (add_fileentry (Entries [] [(''a'', Entries [] [])] :: (nat, nat, nat) fileentry direntries)
            [''a''] FileEntry_base) = Inl (IsADirectoryError (Bytes ''a''))"
  by (simp add: get_direntries_def has_key_def add_fileentry_def Let_def)

lemma mkdirs_then_add_fileentry_parent:
  "mkdirs_then_add_fileentry rootentries (butlast parts) parts fileentry =
     add_fileentry rootentries parts fileentry"
proof (cases "parts = []")
  case True
  then show ?thesis
    by (simp add: mkdirs_then_add_fileentry_def mkdirs_def get_direntries_def add_fileentry_def)
next
  case False
  obtain root1 r where g: "get_direntries rootentries (butlast parts) True = (root1, r)"
    by (cases "get_direntries rootentries (butlast parts) True")
  show ?thesis
  proof (cases r)
    case (Inl err)
    with g False show ?thesis
      by (simp add: mkdirs_then_add_fileentry_def mkdirs_def add_fileentry_def)
  next
    case (Inr n)
    with g have "dir_at root1 (butlast parts) = Some n"
      by (simp add: get_direntries_def loop_create_ok)
    then have "get_direntries root1 (butlast parts) True = (root1, Inr n)"
      by (rule get_direntries_found)
    with g Inr False show ?thesis
      by (simp add: mkdirs_then_add_fileentry_def mkdirs_def add_fileentry_def)
  qed
qed

lemma add_fileentry_dirs:
  assumes "add_fileentry rootentries parts fileentry = (root', Inr ())"
  shows "is_dir root' q = Inr (is_dir rootentries q = Inr True \<or> prefix q (butlast parts))"
proof -
  from assms obtain root1 entries where ne: "parts \<noteq> []"
    and g: "get_direntries rootentries (butlast parts) True = (root1, Inr entries)"
    and r: "root' = modify_at (butlast parts)
           (\<lambda>d. Entries (AList.update (last parts) fileentry (fileentries d)) (subdirs d)) root1"
    by (rule add_fileentry_ok)
  have 1: "dir_at root' q = None \<longleftrightarrow> dir_at root1 q = None"
    unfolding r by (rule dir_at_modify_at_files) simp
  have 2: "dir_at root1 q \<noteq> None \<longleftrightarrow> dir_at rootentries q \<noteq> None \<or> prefix q (butlast parts)"
  proof (cases "prefix q (butlast parts)")
    case True
    with loop_create_dir_prefix [OF g [unfolded get_direntries_def] True] show ?thesis by simp
  next
    case False
    with loop_create_dir_other [OF g [unfolded get_direntries_def] False] show ?thesis by simp
  qed
  from 1 2 show ?thesis by (simp add: is_dir_dir_at)
qed

lemma add_fileentry_other_files:
  assumes "add_fileentry rootentries parts fileentry = (root', Inr ())" and "q \<noteq> parts"
  shows "file_at root' q = file_at rootentries q"
proof -
  from assms(1) obtain root1 entries where ne: "parts \<noteq> []"
    and g: "get_direntries rootentries (butlast parts) True = (root1, Inr entries)"
    and d: "dir_at root1 (butlast parts) = Some entries"
    and r: "root' = modify_at (butlast parts)
           (\<lambda>d. Entries (AList.update (last parts) fileentry (fileentries d)) (subdirs d)) root1"
    by (rule add_fileentry_ok)
  have 1: "file_at root1 q = file_at rootentries q"
    using g [unfolded get_direntries_def] by (rule loop_create_file_at)
  have "file_at root' q = file_at root1 q"
  proof (cases "q \<noteq> [] \<and> butlast q = butlast parts")
    case True
    with assms(2) ne have "last q \<noteq> last parts"
      by (metis append_butlast_last_id)
    from True d have "file_at root' q =
        local_file (Entries (AList.update (last parts) fileentry (fileentries entries))
                      (subdirs entries)) (last q)"
      unfolding r by (simp add: file_at_modify_at_files)
    moreover from True d have "file_at root1 q = local_file entries (last q)"
      by (simp add: file_at_dir_at)
    ultimately show ?thesis using \<open>last q \<noteq> last parts\<close>
      by (simp add: local_file_def update_conv')
  next
    case False
    then show ?thesis unfolding r by (auto simp add: file_at_modify_at_files)
  qed
  with 1 show ?thesis by simp
qed

text \<open>
  Claim C2, as the code has it. \<^verbatim>\<open>mkdirs\<close> of the parent \<^verbatim>\<open>parts[:-1]\<close> followed by
  \<^verbatim>\<open>add_fileentry(parts, fileentry)\<close> leaves the same tree and has the same outcome as
  \<^verbatim>\<open>add_fileentry(parts, fileentry)\<close> alone. When \<^verbatim>\<open>add_fileentry\<close> returns, the directories
  of the new tree are those of the old tree and the prefixes of \<^verbatim>\<open>parts[:-1]\<close>, and the
  file entry at every path other than \<open>parts\<close> is what it was.
\<close>

theorem mkdirs_parent_then_register:
  "mkdirs_then_add_fileentry rootentries (butlast parts) parts fileentry =
     add_fileentry rootentries parts fileentry
   \<and> (add_fileentry rootentries parts fileentry = (root', Inr ()) \<longrightarrow>
        (\<forall>q. is_dir root' q = Inr (is_dir rootentries q = Inr True \<or> prefix q (butlast parts)))
      \<and> (\<forall>q x. q \<noteq> parts \<longrightarrow>
            (get_fileentry root' q = Inr x \<longleftrightarrow> get_fileentry rootentries q = Inr x)))"
  using mkdirs_then_add_fileentry_parent [of rootentries parts fileentry]
    add_fileentry_dirs [of rootentries parts fileentry root']
    add_fileentry_other_files [of rootentries parts fileentry root']
  by (simp add: get_fileentry_Inr)


theorem mkdirs_parent_then_register_witness:
  "add_fileentry (init :: (nat, nat, nat) fileentry direntries) [''a'', ''b'', ''c''] FileEntry_base
     = (Entries [] [(''a'', Entries [] [(''b'', Entries [(''c'', FileEntry_base)] [])])], Inr ())
   \<and> is_dir (Entries [] [(''a'', Entries [] [(''b'', Entries [(''c'', FileEntry_base)] [])])]
        :: (nat, nat, nat) fileentry direntries) [''a'', ''b''] = Inr True
   \<and> is_dir (Entries [] [(''a'', Entries [] [(''b'', Entries [(''c'', FileEntry_base)] [])])]
        :: (nat, nat, nat) fileentry direntries) [''a'', ''b'', ''c''] = Inr False"
proof -
  have h: "add_fileentry (init :: (nat, nat, nat) fileentry direntries) [''a'', ''b'', ''c'']
             FileEntry_base
           = (Entries [] [(''a'', Entries [] [(''b'', Entries [(''c'', FileEntry_base)] [])])], Inr ())"
    by (simp add: add_fileentry_def get_direntries_def has_key_def init_def)
  have i: "is_dir (init :: (nat, nat, nat) fileentry direntries) [''a'', ''b'', ''c''] = Inr False"
    by (simp add: eval_defs)
  from mkdirs_parent_then_register
    [of init "[''a'', ''b'', ''c'']" FileEntry_base
        "Entries [] [(''a'', Entries [] [(''b'', Entries [(''c'', FileEntry_base)] [])])]"] h
  have "\<forall>q. is_dir (Entries [] [(''a'', Entries [] [(''b'', Entries [(''c'', FileEntry_base)] [])])]
               :: (nat, nat, nat) fileentry direntries) q
            = Inr (is_dir (init :: (nat, nat, nat) fileentry direntries) q = Inr True
                   \<or> prefix q (butlast [''a'', ''b'', ''c'']))"
    by blast
  then have "is_dir (Entries [] [(''a'', Entries [] [(''b'', Entries [(''c'', FileEntry_base)] [])])]
               :: (nat, nat, nat) fileentry direntries) [''a'', ''b'']
            = Inr (is_dir (init :: (nat, nat, nat) fileentry direntries) [''a'', ''b''] = Inr True
                   \<or> prefix [''a'', ''b''] (butlast [''a'', ''b'', ''c'']))"
    and "is_dir (Entries [] [(''a'', Entries [] [(''b'', Entries [(''c'', FileEntry_base)] [])])]
               :: (nat, nat, nat) fileentry direntries) [''a'', ''b'', ''c'']
            = Inr (is_dir (init :: (nat, nat, nat) fileentry direntries) [''a'', ''b'', ''c''] = Inr True
                   \<or> prefix [''a'', ''b'', ''c''] (butlast [''a'', ''b'', ''c'']))"
    by blast+
  with h i show ?thesis by simp
qed

text \<open>
  Claim C2 as stated fails: on the empty collection \<^verbatim>\<open>mkdirs\<close> of the path \<open>a\<close> itself
  makes \<open>a\<close> a directory, so the registration that follows raises
  \<^verbatim>\<open>IsADirectoryError\<close> and the tree holds the directory \<open>a\<close>, whereas the registration
  alone returns and the tree holds the file \<open>a\<close>.
\<close>

theorem mkdirs_then_register_counterexample:
  "mkdirs_then_add_fileentry (init :: (nat, nat, nat) fileentry direntries) [''a''] [''a'']
     FileEntry_base
     = (Entries [] [(''a'', Entries [] [])], Inl (IsADirectoryError (Bytes ''a'')))
   \<and> add_fileentry (init :: (nat, nat, nat) fileentry direntries) [''a''] FileEntry_base
     = (Entries [(''a'', FileEntry_base)] [], Inr ())"
  by (simp add: mkdirs_then_add_fileentry_def eval_defs)



lemma add_fileentry_then_get_fileentry:
  assumes "add_fileentry rootentries parts fileentry = (root', Inr ())"
  shows "get_fileentry root' parts = Inr fileentry"
proof -
  from assms obtain root1 entries where ne: "parts \<noteq> []"
    and d: "dir_at root1 (butlast parts) = Some entries"
    and k: "\<not> has_key (subdirs entries) (last parts)"
    and r: "root' = modify_at (butlast parts)
           (\<lambda>d. Entries (AList.update (last parts) fileentry (fileentries d)) (subdirs d)) root1"
    by (rule add_fileentry_ok)
  have "dir_at root' (butlast parts) =
          Some (Entries (AList.update (last parts) fileentry (fileentries entries)) (subdirs entries))"
    unfolding r by (simp add: dir_at_modify_at d)
  from get_fileentry_parent [OF ne this] k show ?thesis
    by (simp add: update_conv')
qed

lemma add_fileentry_returns_iff:
  "(\<exists>root'. add_fileentry rootentries parts fileentry = (root', Inr ())) \<longleftrightarrow>
     parts \<noteq> [] \<and> is_dir rootentries parts = Inr False \<and>
     (\<forall>q. strict_prefix q parts \<longrightarrow> is_file rootentries q = Inr False)"
proof (cases "parts = []")
  case True
  then show ?thesis by (simp add: add_fileentry_def)
next
  case ne: False
  obtain root1 res where g: "get_direntries rootentries (butlast parts) True = (root1, res)"
    by (cases "get_direntries rootentries (butlast parts) True")
  have blocked: "(\<exists>e. res = Inl e) \<longleftrightarrow> (\<exists>q. strict_prefix q parts \<and> is_file rootentries q = Inr True)"
    using loop_create_fails_iff [of "butlast parts" 0 "butlast parts" rootentries] g ne
    by (simp add: get_direntries_def strict_prefix_butlast is_file_file_at)
  show ?thesis
  proof (cases res)
    case (Inl e)
    with blocked obtain q where q: "strict_prefix q parts" "is_file rootentries q = Inr True"
      by blast
    with g Inl ne show ?thesis by (auto simp add: add_fileentry_def)
  next
    case (Inr entries)
    with blocked have free: "\<forall>q. strict_prefix q parts \<longrightarrow> is_file rootentries q = Inr False"
      by (auto simp add: is_file_file_at)
    have "has_key (subdirs entries) (last parts) \<longleftrightarrow> dir_at rootentries parts \<noteq> None"
    proof (cases "dir_at rootentries (butlast parts)")
      case None
      with g Inr have "entries = Entries [] []"
        by (auto simp add: get_direntries_def dest: loop_create_new)
      with None ne show ?thesis by (simp add: dir_at_butlast_last has_key_def)
    next
      case (Some n)
      from get_direntries_found [OF Some, of True] g Inr have "entries = n" by simp
      with Some ne show ?thesis by (simp add: dir_at_butlast_last has_key_map_of)
    qed
    with g Inr ne free show ?thesis
      by (auto simp add: add_fileentry_def Let_def is_dir_dir_at)
  qed
qed

lemma add_fileentry_raises:
  assumes "add_fileentry rootentries parts fileentry = (root', Inl err)"
  shows "root' = rootentries"
    and "(\<exists>m. err = IsADirectoryError m) \<or> (\<exists>m. err = FileExistsError m)"
    and "\<exists>err'. get_fileentry rootentries parts = Inl err'"
proof -
  have all: "root' = rootentries \<and> ((\<exists>m. err = IsADirectoryError m) \<or> (\<exists>m. err = FileExistsError m))
             \<and> file_at rootentries parts = None"
  proof (cases "parts = []")
    case True
    with assms show ?thesis by (auto simp add: add_fileentry_def)
  next
    case ne: False
    obtain root1 res where g: "get_direntries rootentries (butlast parts) True = (root1, res)"
      by (cases "get_direntries rootentries (butlast parts) True")
    show ?thesis
    proof (cases res)
      case (Inl e)
      with g have l: "get_direntries_loop True (butlast parts) 0 (butlast parts) rootentries = (root1, Inl e)"
        by (simp add: get_direntries_def)
      from loop_create_error [OF l] have 1: "root1 = rootentries" "\<exists>m. e = FileExistsError m" by simp_all
      from l have "\<exists>e. snd (get_direntries_loop True (butlast parts) 0 (butlast parts) rootentries) = Inl e"
        by simp
      then obtain q where q: "prefix q (butlast parts)" "file_at rootentries q \<noteq> None"
        unfolding loop_create_fails_iff by blast
      from q(2) q(1) have "dir_at rootentries (butlast parts) = None"
        by (rule file_at_blocks_dir_at)
      with ne have "file_at rootentries parts = None" by (simp add: file_at_dir_at)
      with assms g Inl ne 1 show ?thesis by (auto simp add: add_fileentry_def)
    next
      case (Inr entries)
      with assms g ne have k: "has_key (subdirs entries) (last parts)"
        and e: "root' = root1" "err = IsADirectoryError (Bytes (join parts))"
        by (auto simp add: add_fileentry_def Let_def split: if_splits)
      from g Inr have "snd (get_direntries rootentries (butlast parts) True) = Inr entries" by simp
      from add_fileentry_IsADirectory [OF ne this k, of fileentry] assms
      have r: "root' = rootentries" by simp
      from e r g Inr have "get_direntries rootentries (butlast parts) True = (rootentries, Inr entries)"
        by simp
      then have "dir_at rootentries (butlast parts) = Some entries"
        by (simp add: get_direntries_def loop_create_ok)
      with k ne have "file_at rootentries parts = None"
        by (simp add: file_at_dir_at local_file_def)
      with r e show ?thesis by simp
    qed
  qed
  then show "root' = rootentries"
    and "(\<exists>m. err = IsADirectoryError m) \<or> (\<exists>m. err = FileExistsError m)"
    by simp_all
  from all have "file_at rootentries parts = None" by simp
  then show "\<exists>err'. get_fileentry rootentries parts = Inl err'"
    using get_fileentry_Inr [of rootentries parts]
    by (cases "get_fileentry rootentries parts") auto
qed

lemma registered_at_add_fileentry:
  "add_fileentry rootentries parts fileentry = (root', Inr ()) \<Longrightarrow> registered_at root' parts"
  by (drule add_fileentry_then_get_fileentry) (simp add: get_fileentry_Inr file_at_registered_at)

text \<open>
  Claim C5, as the code has it. \<^verbatim>\<open>add_fileentry(parts, fileentry)\<close> returns exactly when
  \<open>parts\<close> is not empty, does not name a directory, and no proper prefix of \<open>parts\<close> names
  a file; then \<^verbatim>\<open>get_fileentry(parts)\<close> on the tree it leaves returns exactly \<open>fileentry\<close>.
  In every other case it raises \<^verbatim>\<open>IsADirectoryError\<close> or \<^verbatim>\<open>FileExistsError\<close>, the tree is
  left as it was, and \<^verbatim>\<open>get_fileentry(parts)\<close> raises too.
\<close>

theorem register_then_lookup:
  "((\<exists>root'. add_fileentry rootentries parts fileentry = (root', Inr ())) \<longleftrightarrow>
      parts \<noteq> [] \<and> is_dir rootentries parts = Inr False \<and>
      (\<forall>q. strict_prefix q parts \<longrightarrow> is_file rootentries q = Inr False))
 \<and> (\<forall>root'. add_fileentry rootentries parts fileentry = (root', Inr ()) \<longrightarrow>
      get_fileentry root' parts = Inr fileentry)
 \<and> (\<forall>root' err. add_fileentry rootentries parts fileentry = (root', Inl err) \<longrightarrow>
      root' = rootentries
      \<and> ((\<exists>m. err = IsADirectoryError m) \<or> (\<exists>m. err = FileExistsError m))
      \<and> (\<exists>err'. get_fileentry root' parts = Inl err'))"
proof (intro conjI allI impI)
  show "(\<exists>root'. add_fileentry rootentries parts fileentry = (root', Inr ())) \<longleftrightarrow>
      parts \<noteq> [] \<and> is_dir rootentries parts = Inr False \<and>
      (\<forall>q. strict_prefix q parts \<longrightarrow> is_file rootentries q = Inr False)"
    by (rule add_fileentry_returns_iff)
next
  fix root' assume "add_fileentry rootentries parts fileentry = (root', Inr ())"
  then show "get_fileentry root' parts = Inr fileentry"
    by (rule add_fileentry_then_get_fileentry)
next
  fix root' err assume a: "add_fileentry rootentries parts fileentry = (root', Inl err)"
  show "root' = rootentries" using a by (rule add_fileentry_raises(1))
  show "(\<exists>m. err = IsADirectoryError m) \<or> (\<exists>m. err = FileExistsError m)"
    using a by (rule add_fileentry_raises(2))
  show "\<exists>err'. get_fileentry root' parts = Inl err'"
    using add_fileentry_raises(1) [OF a] add_fileentry_raises(3) [OF a] by simp
qed


theorem register_then_lookup_witness:
  "is_dir (init :: (nat, nat, nat) fileentry direntries) [''a'', ''b''] = Inr False
   \<and> add_fileentry (init :: (nat, nat, nat) fileentry direntries) [''a'', ''b''] FileEntry_base
       = (Entries [] [(''a'', Entries [(''b'', FileEntry_base)] [])], Inr ())
   \<and> get_fileentry (Entries [] [(''a'', Entries [(''b'', FileEntry_base)] [])]
        :: (nat, nat, nat) fileentry direntries) [''a'', ''b''] = Inr FileEntry_base"
proof -
  let ?i = "init :: (nat, nat, nat) fileentry direntries"
  have h1: "is_dir ?i [''a'', ''b''] = Inr False" by (simp add: eval_defs)
  have h2: "\<forall>q. strict_prefix q [''a'', ''b''] \<longrightarrow> is_file ?i q = Inr False"
    by (simp add: is_file_file_at init_def file_at_fresh)
  note t = register_then_lookup [of ?i "[''a'', ''b'']" FileEntry_base]
  from t h1 h2 obtain root' where r: "add_fileentry ?i [''a'', ''b''] FileEntry_base = (root', Inr ())"
    by blast
  with t have g: "get_fileentry root' [''a'', ''b''] = Inr FileEntry_base" by blast
  have "add_fileentry ?i [''a'', ''b''] FileEntry_base
          = (Entries [] [(''a'', Entries [(''b'', FileEntry_base)] [])], Inr ())"
    by (simp add: add_fileentry_def get_direntries_def has_key_def init_def)
  with r have "root' = Entries [] [(''a'', Entries [(''b'', FileEntry_base)] [])]" by simp
  with r g h1 show ?thesis by simp
qed

text \<open>
  Claim C5 as stated fails for a non-empty path that names a directory, and for one
  that lies below a file: the registration raises, nothing is stored, and the lookup
  that follows raises as well.
\<close>

theorem register_then_lookup_counterexample:
  "add_fileentry (Entries [] [(''a'', Entries [] [])] :: (nat, nat, nat) fileentry direntries)
     [''a''] FileEntry_base
     = (Entries [] [(''a'', Entries [] [])], Inl (IsADirectoryError (Bytes ''a'')))
   \<and> get_fileentry (Entries [] [(''a'', Entries [] [])] :: (nat, nat, nat) fileentry direntries)
       [''a''] = Inl (IsADirectoryError (Bytes ''a''))
   \<and> add_fileentry (Entries [(''f'', FileEntry_base)] [] :: (nat, nat, nat) fileentry direntries)
       [''f'', ''x''] (Tuple4 None None None None)
     = (Entries [(''f'', FileEntry_base)] [], Inl (FileExistsError (Bytes ''f'')))
   \<and> get_fileentry (Entries [(''f'', FileEntry_base)] [] :: (nat, nat, nat) fileentry direntries)
       [''f'', ''x''] = Inl (FileNotFoundError (StrDecoded ''No such directory: '' ''f''))"
  by (simp add: eval_defs)

subsection \<open>Looking up and opening\<close>

text \<open>
  Claim C6, as the code has it. The root is a directory. At a path that names a
  directory, \<^verbatim>\<open>get_fileentry\<close>, \<^verbatim>\<open>open_r\<close> and \<^verbatim>\<open>open_w\<close> all raise \<^verbatim>\<open>IsADirectoryError\<close>.
  At a path that does not name a directory and at which no file entry is registered,
  all three raise \<^verbatim>\<open>FileNotFoundError\<close>. At a path that does not name a directory and
  at which a file entry is registered, the lookup returns an entry.
\<close>

theorem unregistered_path_NotFound:
  fixes rootentries :: "('r, 'w, 't) fileentry direntries"
  shows "is_dir rootentries [] = Inr True
   \<and> (is_dir rootentries parts = Inr True \<longrightarrow>
        (\<exists>m. get_fileentry rootentries parts = Inl (IsADirectoryError m))
      \<and> (\<exists>m. open_r rootentries parts = Inl (IsADirectoryError m))
      \<and> (\<exists>m. open_w rootentries parts = Inl (IsADirectoryError m)))
   \<and> (is_dir rootentries parts = Inr False \<and> \<not> registered_at rootentries parts \<longrightarrow>
        (\<exists>m. get_fileentry rootentries parts = Inl (FileNotFoundError m))
      \<and> (\<exists>m. open_r rootentries parts = Inl (FileNotFoundError m))
      \<and> (\<exists>m. open_w rootentries parts = Inl (FileNotFoundError m)))
   \<and> (is_dir rootentries parts = Inr False \<and> registered_at rootentries parts \<longrightarrow>
        (\<exists>e. get_fileentry rootentries parts = Inr e))"
proof (intro conjI impI)
  show "is_dir rootentries [] = Inr True" by (rule is_dir_root)
next
  assume "is_dir rootentries parts = Inr True"
  then have d: "dir_at rootentries parts \<noteq> None" by (simp add: is_dir_dir_at)
  have "file_at rootentries parts = None"
  proof (cases "parts = []")
    case True
    then show ?thesis by simp
  next
    case False
    with d show ?thesis
      by (auto simp add: file_at_dir_at dir_at_butlast_last local_file_def has_key_map_of
               split: option.splits)
  qed
  then obtain err where e: "get_fileentry rootentries parts = Inl err"
    using get_fileentry_Inr [of rootentries parts]
    by (cases "get_fileentry rootentries parts") auto
  from get_fileentry_Inl [OF e] d obtain m where "err = IsADirectoryError m" by auto
  with e show "\<exists>m. get_fileentry rootentries parts = Inl (IsADirectoryError m)"
    and "\<exists>m. open_r rootentries parts = Inl (IsADirectoryError m)"
    and "\<exists>m. open_w rootentries parts = Inl (IsADirectoryError m)"
    by (simp_all add: open_r_def open_w_def)
next
  assume "is_dir rootentries parts = Inr False \<and> \<not> registered_at rootentries parts"
  then have d: "dir_at rootentries parts = None" and n: "\<not> registered_at rootentries parts"
    by (simp_all add: is_dir_dir_at)
  from n have f: "file_at rootentries parts = None"
    using file_at_registered_at [of rootentries parts] by (cases "file_at rootentries parts") auto
  obtain err where e: "get_fileentry rootentries parts = Inl err"
    using f get_fileentry_Inr [of rootentries parts]
    by (cases "get_fileentry rootentries parts") auto
  from get_fileentry_Inl [OF e] d obtain m where "err = FileNotFoundError m" by auto
  with e show "\<exists>m. get_fileentry rootentries parts = Inl (FileNotFoundError m)"
    and "\<exists>m. open_r rootentries parts = Inl (FileNotFoundError m)"
    and "\<exists>m. open_w rootentries parts = Inl (FileNotFoundError m)"
    by (simp_all add: open_r_def open_w_def)
next
  assume "is_dir rootentries parts = Inr False \<and> registered_at rootentries parts"
  then have "file_at rootentries parts \<noteq> None"
    using registered_at_file_at [of rootentries parts] by (simp add: is_dir_dir_at)
  then show "\<exists>e. get_fileentry rootentries parts = Inr e"
    by (auto simp add: get_fileentry_Inr)
qed


theorem unregistered_path_NotFound_witness:
  "is_dir (Entries [(''f'', FileEntry_base)] [(''a'', Entries [] [])]
     :: (nat, nat, nat) fileentry direntries) [''a''] = Inr True
   \<and> (\<exists>m. open_r (Entries [(''f'', FileEntry_base)] [(''a'', Entries [] [])]
     :: (nat, nat, nat) fileentry direntries) [''a''] = Inl (IsADirectoryError m))
   \<and> is_dir (Entries [(''f'', FileEntry_base)] [(''a'', Entries [] [])]
     :: (nat, nat, nat) fileentry direntries) [''a'', ''x''] = Inr False
   \<and> \<not> registered_at (Entries [(''f'', FileEntry_base)] [(''a'', Entries [] [])]
     :: (nat, nat, nat) fileentry direntries) [''a'', ''x'']
   \<and> (\<exists>m. open_w (Entries [(''f'', FileEntry_base)] [(''a'', Entries [] [])]
     :: (nat, nat, nat) fileentry direntries) [''a'', ''x''] = Inl (FileNotFoundError m))
   \<and> is_dir (Entries [(''f'', FileEntry_base)] [(''a'', Entries [] [])]
     :: (nat, nat, nat) fileentry direntries) [''f''] = Inr False
   \<and> registered_at (Entries [(''f'', FileEntry_base)] [(''a'', Entries [] [])]
     :: (nat, nat, nat) fileentry direntries) [''f'']
   \<and> (\<exists>e. get_fileentry (Entries [(''f'', FileEntry_base)] [(''a'', Entries [] [])]
     :: (nat, nat, nat) fileentry direntries) [''f''] = Inr e)"
proof -
  let ?t = "Entries [(''f'', FileEntry_base)] [(''a'', Entries [] [])]
     :: (nat, nat, nat) fileentry direntries"
  have a: "is_dir ?t [''a''] = Inr True" by (simp add: eval_defs)
  have x: "is_dir ?t [''a'', ''x''] = Inr False" "\<not> registered_at ?t [''a'', ''x'']"
    by (simp_all add: eval_defs registered_at_def)
  have f: "is_dir ?t [''f''] = Inr False" "registered_at ?t [''f'']"
    by (simp_all add: eval_defs registered_at_def)
  from unregistered_path_NotFound [of ?t "[''a'']"] a
  have 1: "\<exists>m. open_r ?t [''a''] = Inl (IsADirectoryError m)" by blast
  from unregistered_path_NotFound [of ?t "[''a'', ''x'']"] x
  have 2: "\<exists>m. open_w ?t [''a'', ''x''] = Inl (FileNotFoundError m)" by blast
  from unregistered_path_NotFound [of ?t "[''f'']"] f
  have 3: "\<exists>e. get_fileentry ?t [''f''] = Inr e" by blast
  from a x f 1 2 3 show ?thesis by blast
qed

text \<open>
  Claim C6 as stated fails: no file entry is registered at the directory \<open>a\<close> nor at the
  root, and the lookup there raises \<^verbatim>\<open>IsADirectoryError\<close>, as do \<^verbatim>\<open>open_r\<close> and \<^verbatim>\<open>open_w\<close>.
\<close>

theorem unregistered_path_NotFound_counterexample:
  "\<not> registered_at (Entries [] [(''a'', Entries [] [])] :: (nat, nat, nat) fileentry direntries) [''a'']
   \<and> get_fileentry (Entries [] [(''a'', Entries [] [])] :: (nat, nat, nat) fileentry direntries) [''a'']
       = Inl (IsADirectoryError (Bytes ''a''))
   \<and> open_r (Entries [] [(''a'', Entries [] [])] :: (nat, nat, nat) fileentry direntries) [''a'']
       = Inl (IsADirectoryError (Bytes ''a''))
   \<and> open_w (Entries [] [(''a'', Entries [] [])] :: (nat, nat, nat) fileentry direntries) [''a'']
       = Inl (IsADirectoryError (Bytes ''a''))
   \<and> \<not> registered_at (init :: (nat, nat, nat) fileentry direntries) []
   \<and> get_fileentry (init :: (nat, nat, nat) fileentry direntries) []
       = Inl (IsADirectoryError (Str ''FileCollection.root is a directory''))"
  by (simp add: eval_defs registered_at_def)

lemma open_r_FileEntry_None:
  "get_fileentry rootentries parts = Inr (FileEntry (Inr None) w s t) \<Longrightarrow>
   open_r rootentries parts = Inl (UnsupportedOperation (StrDecoded ''not readable: '' (join parts)))"
  by (simp add: open_r_def)

lemma open_w_FileEntry_None:
  "get_fileentry rootentries parts = Inr (FileEntry r (Inr None) s t) \<Longrightarrow>
   open_w rootentries parts = Inl (UnsupportedOperation (StrDecoded ''not writable: '' (join parts)))"
  by (simp add: open_w_def)

lemma open_r_Tuple4:
  "get_fileentry rootentries parts = Inr (Tuple4 r w s t) \<Longrightarrow>
   open_r rootentries parts = Inl (AttributeError ''open_r'')"
  by (simp add: open_r_def)

lemma open_w_Tuple4:
  "get_fileentry rootentries parts = Inr (Tuple4 r w s t) \<Longrightarrow>
   open_w rootentries parts = Inl (AttributeError ''open_w'')"
  by (simp add: open_w_def)

text \<open>
  Claim C4 at an entry stored by \<^verbatim>\<open>add_file\<close>. The path object's \<^verbatim>\<open>add_file()\<close> with no
  provider registers the tuple \<^verbatim>\<open>(None, None, None, None)\<close>; the lookup of that path
  returns the tuple, and \<^verbatim>\<open>open_r\<close> and \<^verbatim>\<open>open_w\<close> then raise \<^verbatim>\<open>AttributeError\<close> at
  \<^verbatim>\<open>entry.open_r()\<close> and \<^verbatim>\<open>entry.open_w()\<close>, not \<^verbatim>\<open>UnsupportedOperation\<close>. For an
  instance of \<^verbatim>\<open>FileEntry\<close> whose opener returns \<^verbatim>\<open>None\<close> they raise
  \<^verbatim>\<open>UnsupportedOperation\<close> (the two lemmas \<open>open_r_FileEntry_None\<close> and
  \<open>open_w_FileEntry_None\<close>).
\<close>

theorem open_raises_on_tuple_entry:
  "add_file (init :: (nat, nat, nat) fileentry direntries) [''a''] None None None None
     = (Entries [(''a'', Tuple4 None None None None)] [], Inr ())
   \<and> get_fileentry (Entries [(''a'', Tuple4 None None None None)] []
        :: (nat, nat, nat) fileentry direntries) [''a''] = Inr (Tuple4 None None None None)
   \<and> open_r (Entries [(''a'', Tuple4 None None None None)] []
        :: (nat, nat, nat) fileentry direntries) [''a''] = Inl (AttributeError ''open_r'')
   \<and> open_w (Entries [(''a'', Tuple4 None None None None)] []
        :: (nat, nat, nat) fileentry direntries) [''a''] = Inl (AttributeError ''open_w'')"
  by (simp add: eval_defs)


subsection \<open>The predicates\<close>

lemma is_file_returns: "\<exists>b. is_file rootentries parts = Inr b"
  by (simp add: is_file_file_at)

lemma is_dir_returns: "\<exists>b. is_dir rootentries parts = Inr b"
  by (simp add: is_dir_dir_at)

lemma get_fileentry_raises_IOError: "get_fileentry rootentries parts = Inl err \<Longrightarrow> is_IOError err"
  by (drule get_fileentry_Inl) (auto split: if_splits)

lemma writable_structural_error:
  "get_fileentry rootentries parts = Inl err \<Longrightarrow> writable rootentries parts = Inr False"
  by (frule get_fileentry_raises_IOError) (simp add: writable_def except_IOError_def)

lemma writable_directory:
  "is_dir rootentries parts = Inr True \<Longrightarrow> writable rootentries parts = Inr False"
proof -
  assume "is_dir rootentries parts = Inr True"
  then have d: "dir_at rootentries parts \<noteq> None" by (simp add: is_dir_dir_at)
  have "file_at rootentries parts = None"
  proof (cases "parts = []")
    case True
    then show ?thesis by simp
  next
    case False
    with d show ?thesis
      by (auto simp add: file_at_dir_at dir_at_butlast_last local_file_def has_key_map_of
               split: option.splits)
  qed
  then obtain err where "get_fileentry rootentries parts = Inl err"
    using get_fileentry_Inr [of rootentries parts]
    by (cases "get_fileentry rootentries parts") auto
  then show ?thesis by (rule writable_structural_error)
qed

lemma writable_Tuple4:
  "get_fileentry rootentries parts = Inr (Tuple4 r w s t) \<Longrightarrow>
   writable rootentries parts = Inr (w \<noteq> None)"
  by (simp add: writable_def except_IOError_def)

lemma writable_FileEntry:
  "get_fileentry rootentries parts = Inr (FileEntry r w s t) \<Longrightarrow>
   writable rootentries parts = Inl (TypeError ''cannot unpack non-iterable FileEntry object'')"
  by (simp add: writable_def except_IOError_def)

text \<open>
  Claim C3 at an instance of \<^verbatim>\<open>FileEntry\<close>. \<^verbatim>\<open>is_file\<close> and \<^verbatim>\<open>is_dir\<close> always return a
  boolean, and \<^verbatim>\<open>writable\<close> returns \<open>False\<close> whenever the lookup raises, as it does on a
  directory (the lemmas above). But once an instance of the class \<^verbatim>\<open>FileEntry\<close> is
  registered at \<open>a\<close>, as \<^verbatim>\<open>add_fileentry\<close> is annotated to take, \<^verbatim>\<open>writable\<close> of \<open>a\<close>
  raises \<^verbatim>\<open>TypeError\<close> at the unpacking \<^verbatim>\<open>_, open_w, _, _ = entry\<close>, which
  \<^verbatim>\<open>except IOError\<close> does not catch.
\<close>

theorem writable_raises_on_FileEntry:
  "add_fileentry (init :: (nat, nat, nat) fileentry direntries) [''a''] FileEntry_base
     = (Entries [(''a'', FileEntry_base)] [], Inr ())
   \<and> is_file (Entries [(''a'', FileEntry_base)] [] :: (nat, nat, nat) fileentry direntries) [''a'']
     = Inr True
   \<and> writable (Entries [(''a'', FileEntry_base)] [] :: (nat, nat, nat) fileentry direntries) [''a'']
     = Inl (TypeError ''cannot unpack non-iterable FileEntry object'')"
  by (simp add: eval_defs)



subsection \<open>Removing a directory\<close>

lemma rmdir_root:
  "rmdir rootentries [] =
     (rootentries, Inl (UnsupportedOperation (Str ''can't rmdir FileCollection.root'')))"
  by (simp add: rmdir_def)

lemma rmdir_no_parent:
  "parts \<noteq> [] \<Longrightarrow> dir_at rootentries (butlast parts) = None \<Longrightarrow>
   \<exists>m. rmdir rootentries parts = (rootentries, Inl (FileNotFoundError m))"
  using get_direntries_False_missing [of rootentries "butlast parts"]
  by (auto simp add: rmdir_def)

lemma rmdir_parent:
  "parts \<noteq> [] \<Longrightarrow> dir_at rootentries (butlast parts) = Some n \<Longrightarrow>
   rmdir rootentries parts =
     (if has_key (fileentries n) (last parts) then
        (rootentries, Inl (NotADirectoryError (Bytes (join parts))))
      else case map_of (subdirs n) (last parts) of
        None \<Rightarrow> (rootentries, Inl (FileNotFoundError (Bytes (join parts))))
      | Some child \<Rightarrow>
          if child \<noteq> Entries [] [] then
            (rootentries, Inl (IOError (StrDecoded ''Directory not empty: '' (join parts))))
          else
            (modify_at (butlast parts)
               (\<lambda>d. Entries (fileentries d) (AList.delete (last parts) (subdirs d))) rootentries,
             Inr ()))"
proof -
  have *: "(c = Entries [] []) = (fileentries c = [] \<and> subdirs c = [])" for c :: "'a direntries"
    by (cases c) auto
  assume "parts \<noteq> []" "dir_at rootentries (butlast parts) = Some n"
  then show ?thesis
    by (simp add: rmdir_def get_direntries_found Let_def * split: option.splits)
qed

lemma list_dir_empty: "list_dir d p = Inr [] \<longleftrightarrow> dir_at d p = Some (Entries [] [])"
proof (cases "dir_at d p")
  case None
  with list_dir_missing [OF None] show ?thesis by auto
next
  case (Some n)
  with list_dir_found [OF Some] show ?thesis by (cases n) auto
qed

text \<open>
  What the removal of an empty subdirectory does to the tree.
\<close>

lemma rmdir_effect:
  assumes n: "dir_at d p = Some n" and c: "map_of (subdirs n) x = Some (Entries [] [])"
    and nf: "\<not> has_key (fileentries n) x"
  defines "d' \<equiv> modify_at p (\<lambda>e. Entries (fileentries e) (AList.delete x (subdirs e))) d"
  shows "dir_at d' q \<noteq> None \<longleftrightarrow> q \<noteq> p @ [x] \<and> dir_at d q \<noteq> None"
    and "file_at d' q = file_at d q"
proof -
  define f :: "'a direntries \<Rightarrow> 'a direntries"
    where "f = (\<lambda>e. Entries (fileentries e) (AList.delete x (subdirs e)))"
  have d': "d' = modify_at p f d" by (simp add: d'_def f_def)
  have below: "dir_at (f n) r = (if hd r = x then None else dir_at n r)" if "r \<noteq> []" for r
    using that by (cases r) (simp_all add: f_def delete_conv')
  have orig: "dir_at n (x # r) = (if r = [] then Some (Entries [] []) else None)" for r
    using c by (simp add: dir_at_fresh)
  have A: "dir_at d' q = (if q = p @ [x] then None else dir_at d q)" if "\<not> prefix q p" for q
  proof (cases "prefix p q")
    case True
    then obtain r where q: "q = p @ r" by (auto simp add: prefix_def)
    with that have r: "r \<noteq> []" by auto
    then obtain y r' where yr: "r = y # r'" by (cases r) auto
    show ?thesis
      using that True n below [OF r] orig [of r']
      by (auto simp add: d' dir_at_modify_at q dir_at_append yr)
  next
    case False
    with that have "q \<noteq> p @ [x]" by auto
    with that False show ?thesis by (simp add: d' dir_at_modify_at)
  qed
  have B: "dir_at d' q = map_option (modify_at (drop (length q) p) f) (dir_at d q)"
    if "prefix q p" for q
    using that by (simp add: d' dir_at_modify_at)
  show "dir_at d' q \<noteq> None \<longleftrightarrow> q \<noteq> p @ [x] \<and> dir_at d q \<noteq> None"
  proof (cases "prefix q p")
    case True
    then have "q \<noteq> p @ [x]" by (auto simp add: prefix_def)
    with B [OF True] show ?thesis by simp
  next
    case False
    with A [OF False] show ?thesis by simp
  qed
  show "file_at d' q = file_at d q"
  proof (cases "q = []")
    case True
    then show ?thesis by simp
  next
    case ne: False
    define bq where "bq = butlast q"
    have "(case dir_at d' bq of None \<Rightarrow> None | Some m \<Rightarrow> local_file m (last q)) =
          (case dir_at d bq of None \<Rightarrow> None | Some m \<Rightarrow> local_file m (last q))"
    proof (cases "prefix bq p")
      case True
      show ?thesis
      proof (cases "bq = p")
        case True
        have "local_file (f n) (last q) = local_file n (last q)"
          using c nf by (auto simp add: local_file_def f_def has_key_map_of delete_conv')
        with True n show ?thesis by (simp add: d' dir_at_modify_at)
      next
        case False
        with True obtain s r where "p = bq @ s # r"
          by (metis append_Nil2 list.exhaust prefix_def)
        then show ?thesis
          by (simp add: d' dir_at_modify_at local_file_modify_at_Cons del: modify_at.simps
                   split: option.splits)
      qed
    next
      case False
      show ?thesis
      proof (cases "bq = p @ [x]")
        case True
        with n c have "dir_at d bq = Some (Entries [] [])" by (simp add: dir_at_snoc)
        with A [OF False] True show ?thesis by (simp add: local_file_fresh)
      next
        case False
        with A [OF \<open>\<not> prefix bq p\<close>] show ?thesis by simp
      qed
    qed
    with ne show ?thesis by (simp add: file_at_dir_at bq_def)
  qed
qed

text \<open>
  Claim C7, on a tree in which no directory has a name both among its files and among
  its subdirectories (every tree a collection can hold is one, see claim C9).
  \<^verbatim>\<open>rmdir(parts)\<close> returns exactly when \<open>parts\<close> is not the root and names an existing
  directory without children; then that directory is gone, every other directory is
  still there and every file entry is what it was. Otherwise it raises
  \<^verbatim>\<open>UnsupportedOperation\<close> for the root, \<^verbatim>\<open>NotADirectoryError\<close> when \<open>parts\<close> names a file,
  \<^verbatim>\<open>FileNotFoundError\<close> when \<open>parts\<close> names neither a file nor a directory, and
  \<^verbatim>\<open>IOError("Directory not empty: ...")\<close> when the directory has a child; in each of
  these cases the tree is unchanged.
\<close>

theorem rmdir_contract:
  assumes inv: "names_disjoint rootentries" and run: "rmdir rootentries parts = (root', res)"
  shows "(res = Inr () \<longleftrightarrow>
            parts \<noteq> [] \<and> is_dir rootentries parts = Inr True \<and> list_dir rootentries parts = Inr [])
       \<and> (res = Inr () \<longrightarrow>
            (\<forall>q. is_dir root' q = Inr (q \<noteq> parts \<and> is_dir rootentries q = Inr True))
          \<and> (\<forall>q x. get_fileentry root' q = Inr x \<longleftrightarrow> get_fileentry rootentries q = Inr x))
       \<and> (parts = [] \<longrightarrow>
            res = Inl (UnsupportedOperation (Str ''can't rmdir FileCollection.root'')))
       \<and> (parts \<noteq> [] \<and> is_file rootentries parts = Inr True \<longrightarrow>
            res = Inl (NotADirectoryError (Bytes (join parts))))
       \<and> (parts \<noteq> [] \<and> is_file rootentries parts = Inr False \<and> is_dir rootentries parts = Inr False \<longrightarrow>
            (\<exists>m. res = Inl (FileNotFoundError m)))
       \<and> (parts \<noteq> [] \<and> is_dir rootentries parts = Inr True \<and> list_dir rootentries parts \<noteq> Inr [] \<longrightarrow>
            res = Inl (IOError (StrDecoded ''Directory not empty: '' (join parts))))
       \<and> (res \<noteq> Inr () \<longrightarrow> root' = rootentries)"
proof (cases "parts = []")
  case True
  with run show ?thesis by (auto simp add: rmdir_root)
next
  case ne: False
  note obs = is_file_file_at is_dir_dir_at list_dir_empty file_at_dir_at dir_at_butlast_last
  show ?thesis
  proof (cases "dir_at rootentries (butlast parts)")
    case None
    from rmdir_no_parent [OF ne None] run obtain m
      where "root' = rootentries" "res = Inl (FileNotFoundError m)" by auto
    with ne None show ?thesis by (simp add: obs)
  next
    case (Some n)
    from inv Some have "names_disjoint n" by (rule names_disjoint_dir_at)
    then have dj: "\<not> (has_key (fileentries n) (last parts) \<and> has_key (subdirs n) (last parts))"
      unfolding names_disjoint_iff [of n] by blast
    note r = rmdir_parent [OF ne Some, unfolded run]
    show ?thesis
    proof (cases "has_key (fileentries n) (last parts)")
      case True
      with dj have "map_of (subdirs n) (last parts) = None" by (auto simp add: has_key_map_of)
      with True r ne Some show ?thesis
        by (simp add: obs local_file_def has_key_map_of)
    next
      case nf: False
      show ?thesis
      proof (cases "map_of (subdirs n) (last parts)")
        case None
        with nf r ne Some show ?thesis
          by (simp add: obs local_file_def has_key_map_of)
      next
        case (Some child)
        show ?thesis
        proof (cases "child = Entries [] []")
          case False
          with Some nf r ne \<open>dir_at rootentries (butlast parts) = Some n\<close> show ?thesis
            by (simp add: obs local_file_def has_key_map_of)
        next
          case True
          with Some have c: "map_of (subdirs n) (last parts) = Some (Entries [] [])" by simp
          note e = rmdir_effect [OF \<open>dir_at rootentries (butlast parts) = Some n\<close> c nf]
          from r nf c have res: "res = Inr ()"
            and root': "root' = modify_at (butlast parts)
               (\<lambda>d. Entries (fileentries d) (AList.delete (last parts) (subdirs d))) rootentries"
            by simp_all
          have 1: "is_dir root' q = Inr (q \<noteq> parts \<and> is_dir rootentries q = Inr True)" for q
            using e(1) [of q] ne by (simp add: root' is_dir_dir_at)
          have 2: "get_fileentry root' q = Inr x \<longleftrightarrow> get_fileentry rootentries q = Inr x" for q x
            using e(2) [of q] by (simp add: root' get_fileentry_Inr)
          have 3: "is_dir rootentries parts = Inr True" "list_dir rootentries parts = Inr []"
            "is_file rootentries parts = Inr False"
            using c ne \<open>dir_at rootentries (butlast parts) = Some n\<close>
            by (simp_all add: obs local_file_def has_key_map_of)
          from res 1 2 3 ne show ?thesis by simp
        qed
      qed
    qed
  qed
qed


theorem rmdir_contract_witness:
  "names_disjoint (Entries [(''f'', FileEntry_base)] [(''a'', Entries [] [])]
     :: (nat, nat, nat) fileentry direntries)
   \<and> rmdir (Entries [(''f'', FileEntry_base)] [(''a'', Entries [] [])]
     :: (nat, nat, nat) fileentry direntries) [''a'']
     = (Entries [(''f'', FileEntry_base)] [], Inr ())
   \<and> is_dir (Entries [(''f'', FileEntry_base)] [(''a'', Entries [] [])]
     :: (nat, nat, nat) fileentry direntries) [''a''] = Inr True
   \<and> is_dir (Entries [(''f'', FileEntry_base)] [] :: (nat, nat, nat) fileentry direntries) [''a'']
     = Inr False
   \<and> rmdir (Entries [(''f'', FileEntry_base)] [(''a'', Entries [] [])]
     :: (nat, nat, nat) fileentry direntries) [''f'']
     = (Entries [(''f'', FileEntry_base)] [(''a'', Entries [] [])],
        Inl (NotADirectoryError (Bytes ''f'')))"
proof -
  let ?t = "Entries [(''f'', FileEntry_base)] [(''a'', Entries [] [])]
     :: (nat, nat, nat) fileentry direntries"
  have i: "names_disjoint ?t" by (simp add: has_key_def)
  have r1: "rmdir ?t [''a''] = (Entries [(''f'', FileEntry_base)] [], Inr ())"
    by (simp add: eval_defs)
  have r2: "rmdir ?t [''f''] = (?t, Inl (NotADirectoryError (Bytes ''f'')))"
    by (simp add: eval_defs)
  have d: "is_dir ?t [''a''] = Inr True" by (simp add: eval_defs)
  from rmdir_contract [OF i r1]
  have "\<forall>q. is_dir (Entries [(''f'', FileEntry_base)] [] :: (nat, nat, nat) fileentry direntries) q
          = Inr (q \<noteq> [''a''] \<and> is_dir ?t q = Inr True)"
    by blast
  then have "is_dir (Entries [(''f'', FileEntry_base)] [] :: (nat, nat, nat) fileentry direntries) [''a'']
          = Inr ([''a''] \<noteq> [''a''] \<and> is_dir ?t [''a''] = Inr True)"
    by blast
  with i r1 r2 d show ?thesis by simp
qed


subsection \<open>Removing a file entry\<close>

lemma removeAll_filter: "removeAll k xs = filter (\<lambda>x. x \<noteq> k) xs"
  by (induction xs) auto

lemma unlink_ok:
  assumes "get_fileentry rootentries parts = Inr e"
  obtains n where "parts \<noteq> []" and "dir_at rootentries (butlast parts) = Some n"
    and "\<not> has_key (subdirs n) (last parts)" and "map_of (fileentries n) (last parts) = Some e"
    and "unlink rootentries parts =
           (modify_at (butlast parts)
              (\<lambda>d. Entries (AList.delete (last parts) (fileentries d)) (subdirs d)) rootentries,
            Inr ())"
proof -
  from assms have f: "file_at rootentries parts = Some e" by (simp add: get_fileentry_Inr)
  then have ne: "parts \<noteq> []" by auto
  with f obtain n where n: "dir_at rootentries (butlast parts) = Some n"
    and l: "local_file n (last parts) = Some e"
    by (auto simp add: file_at_dir_at split: option.splits)
  from l have k: "\<not> has_key (subdirs n) (last parts)"
    and m: "map_of (fileentries n) (last parts) = Some e"
    by (auto simp add: local_file_def split: if_splits)
  from m have "has_key (fileentries n) (last parts)" by (simp add: has_key_map_of)
  with ne k get_direntries_found [OF n, of False]
  have "unlink rootentries parts =
           (modify_at (butlast parts)
              (\<lambda>d. Entries (AList.delete (last parts) (fileentries d)) (subdirs d)) rootentries,
            Inr ())"
    by (simp add: unlink_def)
  with ne n k m show thesis by (rule that)
qed

text \<open>
  Claim C8. When a file entry is registered at \<open>parts\<close>, \<^verbatim>\<open>unlink(parts)\<close> returns. In the
  tree it leaves, the parent directory has the same subdirectories, and its files are
  the former ones without the final name of \<open>parts\<close>, in their former order; \<^verbatim>\<open>list\<close> of
  the parent yields the names of the subdirectories, then those of the remaining files,
  and not the removed name. The lookup of \<open>parts\<close> raises \<^verbatim>\<open>FileNotFoundError\<close>, the
  lookup of every other path gives what it gave, and the directories are the same.
\<close>

theorem unlink_removes_one_entry:
  assumes "get_fileentry rootentries parts = Inr e"
  shows "\<exists>root' n n'.
       unlink rootentries parts = (root', Inr ())
     \<and> get_direntries rootentries (butlast parts) False = (rootentries, Inr n)
     \<and> get_direntries root' (butlast parts) False = (root', Inr n')
     \<and> subdirs n' = subdirs n
     \<and> map fst (fileentries n') = filter (\<lambda>x. x \<noteq> last parts) (map fst (fileentries n))
     \<and> (\<forall>x. x \<noteq> last parts \<longrightarrow> map_of (fileentries n') x = map_of (fileentries n) x)
     \<and> list_dir rootentries (butlast parts) = Inr (map fst (subdirs n) @ map fst (fileentries n))
     \<and> list_dir root' (butlast parts) =
         Inr (map fst (subdirs n) @ filter (\<lambda>x. x \<noteq> last parts) (map fst (fileentries n)))
     \<and> last parts \<notin> set (map fst (subdirs n) @ filter (\<lambda>x. x \<noteq> last parts) (map fst (fileentries n)))
     \<and> get_fileentry root' parts = Inl (FileNotFoundError (Bytes (join parts)))
     \<and> (\<forall>q x. q \<noteq> parts \<longrightarrow> (get_fileentry root' q = Inr x \<longleftrightarrow> get_fileentry rootentries q = Inr x))
     \<and> (\<forall>q. is_file root' q = Inr True \<longleftrightarrow> q \<noteq> parts \<and> is_file rootentries q = Inr True)
     \<and> (\<forall>q. is_dir root' q = is_dir rootentries q)"
proof -
  define f :: "'a direntries \<Rightarrow> 'a direntries"
    where "f = (\<lambda>d. Entries (AList.delete (last parts) (fileentries d)) (subdirs d))"
  define root' where "root' = modify_at (butlast parts) f rootentries"
  from assms obtain n where ne: "parts \<noteq> []" and n: "dir_at rootentries (butlast parts) = Some n"
    and k: "\<not> has_key (subdirs n) (last parts)"
    and m: "map_of (fileentries n) (last parts) = Some e"
    and u: "unlink rootentries parts = (root', Inr ())"
    unfolding root'_def f_def by (rule unlink_ok)
  have fs: "subdirs (f d) = subdirs d" for d by (simp add: f_def)
  have n': "dir_at root' (butlast parts) = Some (f n)"
    by (simp add: root'_def dir_at_modify_at n)
  have keys: "map fst (fileentries (f n)) = filter (\<lambda>x. x \<noteq> last parts) (map fst (fileentries n))"
    by (simp add: f_def delete_keys removeAll_filter)
  have others: "\<forall>x. x \<noteq> last parts \<longrightarrow> map_of (fileentries (f n)) x = map_of (fileentries n) x"
    by (simp add: f_def delete_conv')
  have notin: "last parts \<notin> set (map fst (subdirs n) @ filter (\<lambda>x. x \<noteq> last parts) (map fst (fileentries n)))"
    using k by (auto simp add: has_key_def)
  have gone: "get_fileentry root' parts = Inl (FileNotFoundError (Bytes (join parts)))"
    using get_fileentry_parent [OF ne n'] k by (simp add: fs f_def delete_conv')
  have fat: "file_at root' q = (if q = parts then None else file_at rootentries q)" for q
  proof (cases "q \<noteq> [] \<and> butlast q = butlast parts")
    case True
    then have "file_at root' q = local_file (f n) (last q)"
      unfolding root'_def using fs by (simp add: file_at_modify_at_files n)
    moreover from True n have "file_at rootentries q = local_file n (last q)"
      by (simp add: file_at_dir_at)
    moreover from True ne have "q = parts \<longleftrightarrow> last q = last parts"
      by (metis append_butlast_last_id)
    ultimately show ?thesis
      by (simp add: local_file_def f_def delete_conv')
  next
    case False
    with ne have "q \<noteq> parts" by auto
    with False show ?thesis unfolding root'_def using fs
      by (auto simp add: file_at_modify_at_files)
  qed
  have dirs: "is_dir root' q = is_dir rootentries q" for q
    using dir_at_modify_at_files [of f "butlast parts" rootentries q, OF fs]
    by (simp add: is_dir_dir_at root'_def)
  show ?thesis
    apply (rule exI [of _ root'], rule exI [of _ n], rule exI [of _ "f n"])
    using u get_direntries_found [OF n, of False] get_direntries_found [OF n', of False]
      keys others notin gone list_dir_found [OF n] list_dir_found [OF n'] dirs
    by (simp add: fs fat get_fileentry_Inr is_file_file_at)
qed


theorem unlink_removes_one_entry_witness:
  "get_fileentry (Entries [(''x'', FileEntry_base), (''y'', FileEntry_base)] [(''d'', Entries [] [])]
      :: (nat, nat, nat) fileentry direntries) [''x''] = Inr FileEntry_base
   \<and> unlink (Entries [(''x'', FileEntry_base), (''y'', FileEntry_base)] [(''d'', Entries [] [])]
      :: (nat, nat, nat) fileentry direntries) [''x'']
     = (Entries [(''y'', FileEntry_base)] [(''d'', Entries [] [])], Inr ())
   \<and> list_dir (Entries [(''y'', FileEntry_base)] [(''d'', Entries [] [])]
      :: (nat, nat, nat) fileentry direntries) [] = Inr [''d'', ''y'']"
proof -
  let ?t = "Entries [(''x'', FileEntry_base), (''y'', FileEntry_base)] [(''d'', Entries [] [])]
      :: (nat, nat, nat) fileentry direntries"
  have h: "get_fileentry ?t [''x''] = Inr FileEntry_base"
    by (simp add: eval_defs)
  have u: "unlink ?t [''x''] = (Entries [(''y'', FileEntry_base)] [(''d'', Entries [] [])], Inr ())"
    by (simp add: eval_defs)
  from unlink_removes_one_entry [OF h] obtain root' n
    where 1: "unlink ?t [''x''] = (root', Inr ())"
      and 2: "get_direntries ?t (butlast [''x'']) False = (?t, Inr n)"
      and 3: "list_dir root' (butlast [''x'']) =
         Inr (map fst (subdirs n) @ filter (\<lambda>x. x \<noteq> last [''x'']) (map fst (fileentries n)))"
    by blast
  from 1 u have r: "root' = Entries [(''y'', FileEntry_base)] [(''d'', Entries [] [])]" by simp
  from 2 have n: "n = ?t" by (simp add: get_direntries_def)
  from 3 show ?thesis unfolding r n using h u by simp
qed



subsection \<open>The invariant of the tree\<close>

text \<open>
  Claim C9. In every tree a collection can hold, no directory has a name both among its
  files and among its subdirectories: neither as the tree is traversed from the root
  (\<open>names_disjoint\<close>) nor in any directory that \<^verbatim>\<open>get_direntries\<close> resolves.
\<close>

theorem reachable_names_never_shared:
  assumes "reachable rootentries"
  shows "names_disjoint rootentries
       \<and> (\<forall>parts entries x. snd (get_direntries rootentries parts False) = Inr entries \<longrightarrow>
            \<not> (has_key (fileentries entries) x \<and> has_key (subdirs entries) x))"
proof -
  from assms have nd: "names_disjoint rootentries" by (rule reachable_names_disjoint)
  have "\<not> (has_key (fileentries entries) x \<and> has_key (subdirs entries) x)"
    if "snd (get_direntries rootentries parts False) = Inr entries" for parts entries x
  proof -
    from that have "dir_at rootentries parts = Some entries"
      by (simp add: get_direntries_False_Inr)
    with nd have "names_disjoint entries" by (rule names_disjoint_dir_at)
    then show ?thesis unfolding names_disjoint_iff [of entries] by blast
  qed
  with nd show ?thesis by blast
qed


theorem reachable_names_never_shared_witness:
  "reachable (Entries [] [(''a'', Entries [(''b'', FileEntry_base)] [])]
      :: (nat, nat, nat) fileentry direntries)
   \<and> names_disjoint (Entries [] [(''a'', Entries [(''b'', FileEntry_base)] [])]
      :: (nat, nat, nat) fileentry direntries)"
proof -
  have "add_fileentry (init :: (nat, nat, nat) fileentry direntries) [''a'', ''b''] FileEntry_base
     = (Entries [] [(''a'', Entries [(''b'', FileEntry_base)] [])], Inr ())"
    by (simp add: add_fileentry_def get_direntries_def has_key_def init_def)
  with reachable.add_fileentry
         [OF reachable.init, of "[''a'', ''b'']" "FileEntry_base :: (nat, nat, nat) fileentry"]
  have h: "reachable (Entries [] [(''a'', Entries [(''b'', FileEntry_base)] [])]
      :: (nat, nat, nat) fileentry direntries)"
    by simp
  from reachable_names_never_shared [OF h] h show ?thesis by blast
qed


subsection \<open>A file in the way\<close>

text \<open>
  Claim C10. When a prefix \<open>pre @ [s]\<close> of a path names a file, resolving any path that
  goes through it in non-create mode raises \<^verbatim>\<open>FileNotFoundError\<close> with the message
  \<^verbatim>\<open>"No such directory: "\<close> followed by that prefix, and leaves the tree as it was; so do
  \<^verbatim>\<open>list\<close> of such a path and \<^verbatim>\<open>get_fileentry\<close>, \<^verbatim>\<open>filesize\<close> and \<^verbatim>\<open>mtime\<close> of a path
  below it.
\<close>

theorem file_shadowed_prefix_NotFound:
  fixes rootentries :: "('r, 'w, 't) fileentry direntries"
  assumes "is_file rootentries (pre @ [s]) = Inr True"
  shows "get_direntries rootentries (pre @ s # rest) False =
           (rootentries,
            Inl (FileNotFoundError (StrDecoded ''No such directory: '' (join (pre @ [s])))))
       \<and> list_dir rootentries (pre @ s # rest) =
            Inl (FileNotFoundError (StrDecoded ''No such directory: '' (join (pre @ [s]))))
       \<and> get_fileentry rootentries (pre @ s # rest @ [x]) =
            Inl (FileNotFoundError (StrDecoded ''No such directory: '' (join (pre @ [s]))))
       \<and> filesize rootentries (pre @ s # rest @ [x]) =
            Inl (FileNotFoundError (StrDecoded ''No such directory: '' (join (pre @ [s]))))
       \<and> mtime rootentries (pre @ s # rest @ [x]) =
            Inl (FileNotFoundError (StrDecoded ''No such directory: '' (join (pre @ [s]))))"
proof -
  from assms have "file_at rootentries (pre @ [s]) \<noteq> None"
    by (simp add: is_file_file_at)
  then obtain n where n: "dir_at rootentries pre = Some n" and "local_file n s \<noteq> None"
    by (auto simp add: file_at_dir_at split: option.splits)
  then have s: "map_of (subdirs n) s = None"
    by (auto simp add: local_file_def has_key_map_of split: if_splits)
  note g = get_direntries_shadow [OF n s]
  have b: "butlast (pre @ s # rest @ [x]) = pre @ s # rest"
    by (simp add: butlast_append)
  have f: "get_fileentry rootentries (pre @ s # rest @ [x]) =
             Inl (FileNotFoundError (StrDecoded ''No such directory: '' (join (pre @ [s]))))"
    unfolding get_fileentry_def b by (simp add: g)
  show ?thesis
    by (simp add: g f list_dir_def filesize_def mtime_def)
qed

theorem file_shadowed_prefix_NotFound_witness:
  "is_file (Entries [(''a'', Tuple4 None None None None)] [] :: (nat, nat, nat) fileentry direntries)
     ([] @ [''a'']) = Inr True
   \<and> get_fileentry (Entries [(''a'', Tuple4 None None None None)] [] :: (nat, nat, nat) fileentry direntries)
       [''a'', ''b'', ''c''] = Inl (FileNotFoundError (StrDecoded ''No such directory: '' ''a''))
   \<and> list_dir (Entries [(''a'', Tuple4 None None None None)] [] :: (nat, nat, nat) fileentry direntries)
       [''a'', ''b''] = Inl (FileNotFoundError (StrDecoded ''No such directory: '' ''a''))"
proof -
  have h: "is_file (Entries [(''a'', Tuple4 None None None None)] [] :: (nat, nat, nat) fileentry direntries)
     ([] @ [''a'']) = Inr True"
    by (simp add: eval_defs)
  show ?thesis
    using h file_shadowed_prefix_NotFound [OF h, of "[''b'']" "''c''"] by simp
qed

end
